theory Spec2Isabelle
  imports Main "HOL-Library.Multiset" "HOL-Library.List_Lexorder" "HOL-Library.Char_ord"
begin

section \<open>The USCIS case status poller\<close>

text \<open>
  A shallow embedding of the latest revision of the poller (the script with the
  \<^verbatim>\<open>BLOCKED\<close> flag, \<^verbatim>\<open>getErrorType\<close> and \<^verbatim>\<open>recursiveHelper\<close>).

  Conventions of the embedding.
  \<^item> JavaScript numbers are doubles. The numbers of the poller are integers: the model
    holds them in \<^typ>\<open>int\<close> and rounds every sum to the nearest double, so that it
    follows the code beyond \<open>2^53\<close> as well.
  \<^item> A JavaScript object with optional properties is a record of \<^typ>\<open>'a option\<close>
    fields; a property that is absent, \<^verbatim>\<open>undefined\<close> or \<^verbatim>\<open>null\<close> is \<^const>\<open>None\<close>.
  \<^item> A thrown exception is the left summand of a result \<^typ>\<open>'e + 'a\<close>.
  \<^item> Console output, the global \<^verbatim>\<open>BLOCKED\<close> flag, the global \<^verbatim>\<open>results\<close> and the HTTP
    requests sent are fields of an explicit state that every effectful function threads.
  \<^item> The libraries (lodash, async, moment, htmlparser, soupselect, request) are used at
    the level of their behaviour on the values of the poller; the network, the HTML
    parser, the date parser and formatter, and lodash's reading of a property path are
    parameters of the model (the record \<open>world\<close>).
\<close>

subsection \<open>Strings\<close>

text \<open>\<^verbatim>\<open>s.split(c)\<close> for a one-character separator: never empty, \<^verbatim>\<open>"".split(",")\<close> is
  \<^verbatim>\<open>[""]\<close>.\<close>

fun split_on :: "char \<Rightarrow> string \<Rightarrow> string list" where
  "split_on c [] = [[]]"
| "split_on c (x # xs) =
     (if x = c then [] # split_on c xs
      else (case split_on c xs of
              [] \<Rightarrow> [[x]]
            | y # ys \<Rightarrow> (x # y) # ys))"

text \<open>\<^verbatim>\<open>parts.join(sep)\<close>.\<close>

fun join :: "string \<Rightarrow> string list \<Rightarrow> string" where
  "join sep [] = []"
| "join sep [x] = x"
| "join sep (x # y # ys) = x @ sep @ join sep (y # ys)"

subsection \<open>Data\<close>

text \<open>A thrown JavaScript exception. The only one the poller can throw is the
  \<^verbatim>\<open>TypeError\<close> of a method call on \<^verbatim>\<open>undefined\<close>.\<close>

datatype exn = TypeError

text \<open>A moment object: a valid one holds an instant (Unix seconds); \<^verbatim>\<open>moment(s, format)\<close>
  never throws, it returns an invalid moment for a string it cannot parse.
  \<^verbatim>\<open>.unix()\<close> of an invalid moment is \<^verbatim>\<open>NaN\<close>, here \<^const>\<open>None\<close>.\<close>

datatype moment = Moment int | InvalidMoment

fun moment_unix :: "moment \<Rightarrow> int option" where
  "moment_unix (Moment t) = Some t"
| "moment_unix InvalidMoment = None"

text \<open>The object \<^verbatim>\<open>{date: ..., string: ...}\<close> that \<^verbatim>\<open>getDate\<close> returns.\<close>

record date_info =
  date_date :: moment
  date_string :: string

text \<open>The object \<^verbatim>\<open>{raw: ..., heading: ...}\<close>; \<^verbatim>\<open>{}\<close> has neither property.\<close>

record raw_data =
  data_raw :: "string option"
  data_heading :: "string option"

text \<open>A result object: \<^verbatim>\<open>{caseNum, type, date, data}\<close>, each property possibly absent.\<close>

record lookup_result =
  caseNum :: "string option"
  type :: "string option"
  date :: "date_info option"
  data :: "raw_data option"

definition empty_object :: lookup_result where
  "empty_object = \<lparr>caseNum = None, type = None, date = None, data = None\<rparr>"

text \<open>\<^verbatim>\<open>_.extend(object, source)\<close> for a \<open>source\<close> whose own properties are \<open>keys\<close>: every
  one of them is written to \<open>object\<close>, also one whose value is \<^verbatim>\<open>undefined\<close>. (A record
  does not tell an absent property from an undefined one, so the keys are given.)\<close>

definition lodash_extend ::
  "lookup_result \<Rightarrow> string list \<Rightarrow> lookup_result \<Rightarrow> lookup_result" where
  "lodash_extend object keys source =
     \<lparr>caseNum = (if ''caseNum'' \<in> set keys then caseNum source else caseNum object),
      type = (if ''type'' \<in> set keys then type source else type object),
      date = (if ''date'' \<in> set keys then date source else date object),
      data = (if ''data'' \<in> set keys then data source else data object)\<rparr>"

text \<open>A node of the parsed page, as htmlparser builds it: attributes, children, and
  the \<^verbatim>\<open>raw\<close> and \<^verbatim>\<open>data\<close> strings.\<close>

datatype node =
  Node (attribs: "(string \<times> string) list") (children: "node list option")
       (raw: "string option") (node_data: "string option")

text \<open>A parsed page is represented by what \<^verbatim>\<open>select(dom, selector)\<close> returns for each
  selector.\<close>

type_synonym dom = "string \<Rightarrow> node list"

text \<open>What htmlparser hands to its handler: an error, or the page.\<close>

datatype page = ParseError | Document dom

text \<open>What \<^verbatim>\<open>request.post\<close> hands to its callback: an error, or a response with a
  body.\<close>

datatype http_reply = RequestError | Response string

text \<open>Console output, one constructor per \<^verbatim>\<open>console.log\<close> call of the lookups, of the
  scheduler and of \<^verbatim>\<open>run\<close>. (The elapsed seconds of the per-batch line are not
  recorded; \<^verbatim>\<open>debug\<close> output and the statistics of the final processing are not
  modelled.)\<close>

datatype log =
  UnknownKey string
| UnknownErrorType "node list"
| ErrorParsingPage
| RetrievalFailed string
| DoesNotExist string
| IPBlocked
| Processing int
| Finished int
| Starting
| Completed nat

text \<open>The error object a callback receives: htmlparser's own error, or
  \<^verbatim>\<open>{type: ..., msg: "info extraction failed"}\<close>.\<close>

datatype cb_error = ParserFailure | ExtractionFailure string

text \<open>The environment of a run.\<close>

record world =
  request_post :: "string \<Rightarrow> http_reply"
  clock :: "string \<Rightarrow> int"
  group_clock :: "nat \<Rightarrow> int"
  htmlparser :: "string \<Rightarrow> page"
  moment_parse :: "string \<Rightarrow> moment"
  moment_format :: "moment \<Rightarrow> string"
  label_parse :: "string \<Rightarrow> moment"
  has_path :: "(string \<times> string) list \<Rightarrow> string \<Rightarrow> bool"

text \<open>
  \<^item> \<open>request_post w caseNum\<close>: the outcome of the POST for that case number;
  \<^item> \<open>clock w caseNum\<close>: the wall clock (Unix seconds) when that POST's callback runs;
  \<^item> \<open>group_clock w i\<close>: the wall clock while the \<open>i\<close>-th result is grouped;
  \<^item> \<open>htmlparser w body\<close>: the parse of a response body;
  \<^item> \<open>moment_parse w s\<close>: \<^verbatim>\<open>moment(s, "MMM DD  YYYY")\<close>;
  \<^item> \<open>moment_format w m\<close>: \<^verbatim>\<open>m.format("dddd, MMMM Do YYYY")\<close>;
  \<^item> \<open>label_parse w s\<close>: \<^verbatim>\<open>moment(s, "dddd, MMMM Do YYYY")\<close>;
  \<^item> \<open>has_path w object path\<close>: what \<^verbatim>\<open>_.has(object, path)\<close> answers for a string
    \<open>path\<close> that is no key of \<open>object\<close> and that lodash may read as a property path
    (it contains \<^verbatim>\<open>.\<close> or \<^verbatim>\<open>[\<close>).
\<close>

text \<open>The mutable state of the process: the globals \<^verbatim>\<open>BLOCKED\<close> and \<^verbatim>\<open>results\<close>, the
  console, and the case numbers POSTed so far.\<close>

record run_state =
  BLOCKED :: bool
  results :: "lookup_result list"
  console :: "log list"
  posted :: "string list"

definition say :: "log list \<Rightarrow> run_state \<Rightarrow> run_state" where
  "say lines s = s\<lparr>console := console s @ lines\<rparr>"

subsection \<open>Numbers as strings and zero padding\<close>

definition digit :: "nat \<Rightarrow> char" where
  "digit d = ''0123456789'' ! d"

text \<open>The decimal numeral of a natural number, most significant digit first.\<close>

fun decimal :: "nat \<Rightarrow> string" where
  "decimal n = (if n < 10 then [digit n] else decimal (n div 10) @ [digit (n mod 10)])"

declare decimal.simps [simp del]

text \<open>The decimal numeral of an integer.\<close>

definition numeral_string :: "int \<Rightarrow> string" where
  "numeral_string num =
     (if num < 0 then CHR ''-'' # decimal (nat (- num)) else decimal (nat num))"

text \<open>The number of binary digits of a natural number.\<close>

fun bit_length :: "nat \<Rightarrow> nat" where
  "bit_length n = (if n = 0 then 0 else Suc (bit_length (n div 2)))"

declare bit_length.simps [simp del]

text \<open>The double nearest to an integer: the integer is cut to its 53 leading binary
  digits and rounded to the nearest such number, a tie to the even one. (The sums of a
  run stay far below the largest double.)\<close>

definition double_round :: "int \<Rightarrow> int" where
  "double_round x =
     (let a = nat \<bar>x\<bar>;
          e = bit_length a - 53;
          q = a div 2 ^ e;
          r = a mod 2 ^ e;
          q = (if 2 ^ e < 2 * r \<or> (2 * r = 2 ^ e \<and> odd q) then q + 1 else q)
      in sgn x * int (q * 2 ^ e))"

text \<open>\<^verbatim>\<open>a + b\<close> and \<^verbatim>\<open>_.add(a, b)\<close> on integral numbers.\<close>

definition js_add :: "int \<Rightarrow> int \<Rightarrow> int" where
  "js_add a b = double_round (a + b)"

text \<open>The digits in which a number \<open>m\<close> beyond \<open>2^53\<close> is printed: a pair \<open>(s, e)\<close> that
  stands for \<open>s * 10^e\<close>, with as few digits in \<open>s\<close> as possible among the pairs that
  read back as \<open>m\<close>, and among those the nearest to \<open>m\<close> (the even \<open>s\<close> in a tie). With
  \<open>k\<close> digits only the two numbers around \<open>m\<close> can read back as \<open>m\<close>, or the next power
  of ten.\<close>

definition reads_back :: "nat \<Rightarrow> nat \<times> nat \<Rightarrow> bool" where
  "reads_back m c = (double_round (int (fst c * 10 ^ snd c)) = int m)"

definition candidates :: "nat \<Rightarrow> nat \<Rightarrow> (nat \<times> nat) list" where
  "candidates m k =
     (let len = length (decimal m);
          e = len - k;
          lo = m div 10 ^ e
      in filter (reads_back m)
           (filter (\<lambda>c. 10 ^ (k - 1) \<le> fst c \<and> fst c < 10 ^ k) [(lo, e), (lo + 1, e)] @
            (if k = 1 then [(1, len)] else [])))"

definition distance :: "nat \<Rightarrow> nat \<times> nat \<Rightarrow> int" where
  "distance m c = \<bar>int (fst c * 10 ^ snd c) - int m\<bar>"

fun nearest :: "nat \<Rightarrow> nat \<times> nat \<Rightarrow> (nat \<times> nat) list \<Rightarrow> nat \<times> nat" where
  "nearest m c [] = c"
| "nearest m c (d # ds) =
     nearest m
       (if distance m d < distance m c \<or>
           (distance m d = distance m c \<and> even (fst d) \<and> odd (fst c))
        then d else c)
       ds"

definition shortest_digits :: "nat \<Rightarrow> nat \<times> nat" where
  "shortest_digits m =
     (case filter (\<lambda>cs. cs \<noteq> []) (map (candidates m) [1..<Suc (length (decimal m))]) of
        [] \<Rightarrow> (m, 0)
      | cs # rest \<Rightarrow> nearest m (hd cs) (tl cs))"

text \<open>\<^verbatim>\<open>m + ""\<close> for a number \<open>m\<close> beyond \<open>2^53\<close>: its digits followed by zeros, as in
  \<^verbatim>\<open>1152921504606847000\<close> for \<open>2^60\<close>, when that has at most 21 digits, and exponent
  notation otherwise, as in \<^verbatim>\<open>1e+21\<close>.\<close>

definition large_string :: "nat \<Rightarrow> string" where
  "large_string m =
     (let c = shortest_digits m;
          ds = decimal (fst c);
          n = length ds + snd c
      in if n \<le> 21 then ds @ replicate (snd c) CHR ''0''
         else take 1 ds @ (if length ds = 1 then [] else CHR ''.'' # drop 1 ds) @ ''e+'' @
              decimal (n - 1))"

text \<open>\<^verbatim>\<open>num + ""\<close> for an integral number \<open>num\<close>: an integer up to \<open>2^53\<close> in magnitude
  is printed as its numeral.\<close>

definition toString :: "int \<Rightarrow> string" where
  "toString num =
     (if \<bar>num\<bar> \<le> 9007199254740992 then numeral_string num
      else (if num < 0 then ''-'' else []) @ large_string (nat \<bar>num\<bar>))"

text \<open>\<^verbatim>\<open>parseInt(num)\<close> for an integral number \<open>num\<close>: \<^verbatim>\<open>parseInt\<close> reads the integer at
  the beginning of \<^verbatim>\<open>num + ""\<close>. Below \<open>10^21\<close> the digits read back as \<open>num\<close>; from
  there on, the integer is the first digit of the exponent notation (\<^verbatim>\<open>parseInt(1e21)\<close>
  is 1).\<close>

definition parseInt :: "int \<Rightarrow> int" where
  "parseInt num =
     (if \<bar>num\<bar> < 1000000000000000000000 then num
      else (let s = fst (shortest_digits (nat \<bar>num\<bar>))
            in sgn num * int (s div 10 ^ (length (decimal s) - 1))))"

text \<open>The loop \<^verbatim>\<open>while (s.length < size) { s = "0" + s; }\<close> of \<^verbatim>\<open>utils.pad\<close>.\<close>

function pad_while :: "string \<Rightarrow> nat \<Rightarrow> string" where
  "pad_while s sz = (if length s < sz then pad_while (CHR ''0'' # s) sz else s)"
  by pat_completeness auto
termination
  by (relation "measure (\<lambda>(s, sz). sz - length s)") auto

declare pad_while.simps [simp del]

text \<open>\<^verbatim>\<open>utils.pad(num, size)\<close>.\<close>

definition pad :: "int \<Rightarrow> nat \<Rightarrow> string" where
  "pad num sz = pad_while (toString num) sz"

subsection \<open>The identifier generator\<close>

definition caseNumLength :: nat where
  "caseNumLength = 10"

text \<open>\<^verbatim>\<open>_.times(n, iteratee)\<close> for an integral \<open>n\<close>: the results of
  \<open>iteratee 0, ..., iteratee (n - 1)\<close>; empty when \<open>n < 1\<close> or \<open>n > 2^53 - 1\<close>
  (\<^verbatim>\<open>MAX_SAFE_INTEGER\<close>), and never longer than \<open>2^32 - 1\<close> (\<^verbatim>\<open>MAX_ARRAY_LENGTH\<close>).\<close>

definition lodash_times :: "int \<Rightarrow> (int \<Rightarrow> 'a) \<Rightarrow> 'a list" where
  "lodash_times n iteratee =
     (if n < 1 \<or> 9007199254740991 < n then []
      else map (\<lambda>index. iteratee (int index)) [0..<nat (min n 4294967295)])"

text \<open>\<^verbatim>\<open>utils.getParams(prefix, start, number)\<close>.\<close>

definition getParams :: "string \<Rightarrow> int \<Rightarrow> int \<Rightarrow> string list" where
  "getParams prefix start number =
     lodash_times number
       (\<lambda>index. prefix @ pad (js_add (parseInt start) index) caseNumLength)"

subsection \<open>The status classifier\<close>

text \<open>\<^verbatim>\<open>titleToType\<close>, the table from the remote heading to the local type.\<close>

definition titleToType :: "(string \<times> string) list" where
  "titleToType =
    [(''Biometrics Appointment Was Scheduled'', ''BIO''),
     (''Case Was Received and A Receipt Notice Was Emailed'', ''NOTICE''),
     (''Decision Notice Mailed'', ''APPROVED''),
     (''Request for Additional Evidence Was Mailed'', ''EVIDENCE_REQUEST''),
     (''Card Was Delivered To Me By The Post Office'', ''CARD_ISSUED''),
     (''Interview Was Scheduled'', ''INTERVIEW''),
     (''Withdrawal Acknowledgement Notice Was Sent'', ''WITHDRAWN''),
     (''Notice Explaining USCIS' Actions Was Mailed'', ''EXPLAIN''),
     (''Card Is Being Produced'', ''CARD_ISSUED''),
     (''Case Approved'', ''APPROVED''),
     (''Case Was Approved'', ''APPROVED''),
     (''Response To USCIS' Request For Evidence Was Received'', ''EVIDENCE_REQUEST''),
     (''Card Was Produced'', ''CARD_ISSUED''),
     (''Case Was Suspended Because My Fee Was Returned by My Bank'', ''SUSPENDED''),
     (''Case Rejected Because I Sent An Incorrect Fee'', ''REJECTED'')]"

text \<open>The body of the \<^verbatim>\<open>try\<close> block of \<^verbatim>\<open>utils.getDate\<close>: \<^verbatim>\<open>data.split\<close> throws when
  \<open>data\<close> is \<^verbatim>\<open>undefined\<close>; nothing else in the block throws.\<close>

definition getDate_try :: "world \<Rightarrow> string option \<Rightarrow> exn + moment" where
  "getDate_try w text =
     (case text of
        None \<Rightarrow> Inl TypeError
      | Some str \<Rightarrow>
          (let seperated = split_on CHR '','' str;
               dateString = join '', '' (take 2 seperated);
               dateString = drop 3 dateString
           in Inr (moment_parse w dateString)))"

text \<open>\<^verbatim>\<open>utils.getDate(data)\<close>; \<open>now\<close> is what \<^verbatim>\<open>moment()\<close> reads in the \<^verbatim>\<open>catch\<close> block.\<close>

definition getDate :: "world \<Rightarrow> int \<Rightarrow> string option \<Rightarrow> date_info" where
  "getDate w now text =
     (let d = (case getDate_try w text of Inl e \<Rightarrow> Moment now | Inr m \<Rightarrow> m)
      in \<lparr>date_date = d, date_string = moment_format w d\<rparr>)"

text \<open>\<^verbatim>\<open>_.has(object, path)\<close> for an object of string properties and a string \<open>path\<close>.
  A path that is a key of \<open>object\<close> is found. Any other path is looked up as a key
  (and not found) unless lodash reads it as a property path, which takes a \<^verbatim>\<open>.\<close> or a
  \<^verbatim>\<open>[\<close> in it; then lodash walks the path through the own properties of the values, so
  that \<^verbatim>\<open>_.has(titleToType, "Case Was Approved.length")\<close> is \<^verbatim>\<open>true\<close>: the string
  \<^verbatim>\<open>"APPROVED"\<close> has a \<^verbatim>\<open>length\<close>.\<close>

definition lodash_has :: "world \<Rightarrow> (string \<times> string) list \<Rightarrow> string \<Rightarrow> bool" where
  "lodash_has w object path =
     (path \<in> fst ` set object \<or>
      ((CHR ''.'' \<in> set path \<or> CHR ''['' \<in> set path) \<and> has_path w object path))"

text \<open>The inner function \<^verbatim>\<open>getType\<close> of \<^verbatim>\<open>utils.infoParser\<close>, with what it prints. Where
  \<^verbatim>\<open>_.has\<close> is true, it returns \<^verbatim>\<open>titleToType[key]\<close>, which is \<^verbatim>\<open>undefined\<close> when \<open>key\<close>
  is no key of the table.\<close>

definition getType :: "world \<Rightarrow> string \<Rightarrow> string option \<times> log list" where
  "getType w key =
     (if lodash_has w titleToType key then (map_of titleToType key, [])
      else (Some ''UNKNOWN'', [UnknownKey key]))"

text \<open>\<^verbatim>\<open>utils.infoParser(text, title)\<close>: an object with the properties \<^verbatim>\<open>data\<close>, \<^verbatim>\<open>type\<close>
  and \<^verbatim>\<open>date\<close>.\<close>

definition infoParser :: "world \<Rightarrow> int \<Rightarrow> string \<Rightarrow> string \<Rightarrow> lookup_result \<times> log list" where
  "infoParser w now text title =
     (case getType w title of
        (t, printed) \<Rightarrow>
          (\<lparr>caseNum = None,
            type = t,
            date = Some (getDate w now (Some text)),
            data = Some \<lparr>data_raw = Some text, data_heading = Some title\<rparr>\<rparr>,
           printed))"

text \<open>\<^verbatim>\<open>utils.extract(dom, selector)\<close> (\<open>extract\<close> is a reserved word here).\<close>

definition extract_data :: "dom \<Rightarrow> string \<Rightarrow> string option" where
  "extract_data htmlDom selector =
     (case htmlDom selector of
        [d] \<Rightarrow>
          (case children d of
             Some [] \<Rightarrow> None
           | Some (c # cs) \<Rightarrow> node_data c
           | None \<Rightarrow> None)
      | _ \<Rightarrow> None)"

text \<open>\<^verbatim>\<open>!value\<close> for a string or \<^verbatim>\<open>null\<close>.\<close>

fun falsy :: "string option \<Rightarrow> bool" where
  "falsy None = True"
| "falsy (Some str) = (str = [])"

text \<open>\<^verbatim>\<open>_.get(label, "0.attribs.for", null)\<close>.\<close>

definition get_labelFor :: "node list \<Rightarrow> string option" where
  "get_labelFor label = (case label of [] \<Rightarrow> None | l # ls \<Rightarrow> map_of (attribs l) ''for'')"

text \<open>\<^verbatim>\<open>_.get(error, "0.children.0.raw")\<close>.\<close>

definition get_errorRaw :: "node list \<Rightarrow> string option" where
  "get_errorRaw error =
     (case error of
        [] \<Rightarrow> None
      | e # es \<Rightarrow> (case children e of Some (c # cs) \<Rightarrow> raw c | _ \<Rightarrow> None))"

text \<open>\<^verbatim>\<open>utils.getErrorType(dom)\<close>, with what it prints. \<^verbatim>\<open>.split(" ")\<close> on \<^verbatim>\<open>undefined\<close>
  throws.\<close>

definition getErrorType :: "dom \<Rightarrow> exn + string \<times> log list" where
  "getErrorType htmlDom =
     (let label = htmlDom ''label'';
          labelFor = get_labelFor label
      in if labelFor = Some ''accessviolation'' then Inr (''BLOCKED'', [])
         else if labelFor = Some ''receipt_number'' then
           (case get_errorRaw (htmlDom ''#formErrorMessages h4'') of
              None \<Rightarrow> Inl TypeError
            | Some r \<Rightarrow>
                (let msg = split_on CHR '' '' r
                 in if hd msg = ''Validation'' then Inr (''NOT_FOUND'', [])
                    else Inr (''UNKNOWN'', [UnknownErrorType label])))
         else Inr (''UNKNOWN'', [UnknownErrorType label]))"

text \<open>\<^verbatim>\<open>utils.extractInfo(rawHTML, callback)\<close>: the arguments the callback receives (an
  error, or a result) and what is printed; or the exception that escapes.\<close>

definition extractInfo ::
  "world \<Rightarrow> int \<Rightarrow> string \<Rightarrow> exn + (cb_error + lookup_result) \<times> log list" where
  "extractInfo w now rawHTML =
     (case htmlparser w rawHTML of
        ParseError \<Rightarrow> Inr (Inl ParserFailure, [ErrorParsingPage])
      | Document htmlDom \<Rightarrow>
          (let title = extract_data htmlDom ''div.rows h1'';
               text = extract_data htmlDom ''div.rows p''
           in if falsy title \<or> falsy text then
                (case getErrorType htmlDom of
                   Inl e \<Rightarrow> Inl e
                 | Inr (t, printed) \<Rightarrow> Inr (Inl (ExtractionFailure t), printed))
              else
                (case infoParser w now (the text) (the title) of
                   (res, printed) \<Rightarrow> Inr (Inr res, printed))))"

subsection \<open>The case poller\<close>

text \<open>\<^verbatim>\<open>utils.retrieveCaseStatus(caseNum, callback)\<close>: the arguments \<open>(err, result)\<close> of the
  call of \<open>callback\<close> and the state afterwards; or the exception that escapes.
  \<open>defaultReturn\<close> is the local variable of that name, built when the POST's callback
  runs. \<^verbatim>\<open>_.extend({type: "NEXIST"})\<close> has no source object and returns its argument.\<close>

definition defaultReturn :: "world \<Rightarrow> string \<Rightarrow> lookup_result" where
  "defaultReturn w num =
     \<lparr>caseNum = Some num,
      type = Some ''FAILED'',
      date = Some (getDate w (clock w num) None),
      data = Some \<lparr>data_raw = None, data_heading = None\<rparr>\<rparr>"

definition retrieveCaseStatus ::
  "world \<Rightarrow> string \<Rightarrow> run_state \<Rightarrow> exn + (cb_error option \<times> lookup_result) \<times> run_state" where
  "retrieveCaseStatus w num s0 =
     (let s = s0\<lparr>posted := posted s0 @ [num]\<rparr>
      in case request_post w num of
           RequestError \<Rightarrow> Inr ((None, defaultReturn w num), say [RetrievalFailed num] s)
         | Response body \<Rightarrow>
             (case extractInfo w (clock w num) body of
                Inl e \<Rightarrow> Inl e
              | Inr (Inl err, printed) \<Rightarrow>
                  (if err = ExtractionFailure ''BLOCKED'' then
                     Inr ((None, defaultReturn w num), (say printed s)\<lparr>BLOCKED := True\<rparr>)
                   else if err = ExtractionFailure ''NOT_FOUND'' then
                     Inr ((None, empty_object\<lparr>type := Some ''NEXIST''\<rparr>),
                          say (printed @ [DoesNotExist num]) s)
                   else Inr ((None, defaultReturn w num), say printed s))
              | Inr (Inr res, printed) \<Rightarrow>
                  Inr ((None,
                        lodash_extend
                          (lodash_extend
                             (lodash_extend empty_object
                                [''caseNum'', ''type'', ''date'', ''data''] (defaultReturn w num))
                             [''data'', ''type'', ''date''] res)
                          [''caseNum''] (empty_object\<lparr>caseNum := Some num\<rparr>)),
                       say printed s)))"

subsection \<open>The batch scheduler\<close>

text \<open>\<^verbatim>\<open>async.map(params, utils.retrieveCaseStatus, callback)\<close>: the arguments
  \<open>(err, res)\<close> of the final callback, the results in the order of \<open>params\<close>. The
  requests of a batch are in flight together; the model runs their callbacks in the
  order of submission.\<close>

fun async_map ::
  "world \<Rightarrow> string list \<Rightarrow> run_state \<Rightarrow>
     exn + (cb_error option \<times> lookup_result list) \<times> run_state" where
  "async_map w [] s = Inr ((None, []), s)"
| "async_map w (p # ps) s =
     (case retrieveCaseStatus w p s of
        Inl e \<Rightarrow> Inl e
      | Inr ((err, r), s1) \<Rightarrow>
          (case async_map w ps s1 of
             Inl e \<Rightarrow> Inl e
           | Inr ((err', rs), s2) \<Rightarrow>
               Inr ((case err of Some e \<Rightarrow> Some e | None \<Rightarrow> err', r # rs), s2)))"

text \<open>The object \<^verbatim>\<open>data\<close> of \<^verbatim>\<open>run\<close>: \<^verbatim>\<open>{prefix, intervalSize, end}\<close>.\<close>

record run_data =
  prefix :: string
  intervalSize :: int
  endNum :: int

text \<open>\<^verbatim>\<open>utils.recursiveHelper(data, current, acc, callback)\<close>: the result handed to
  \<open>callback\<close> and the state then; \<^const>\<open>None\<close> when the recursion never reaches
  \<open>callback\<close>.\<close>

partial_function (option) recursiveHelper ::
  "world \<Rightarrow> run_data \<Rightarrow> int \<Rightarrow> lookup_result list \<Rightarrow> run_state \<Rightarrow>
     (exn + lookup_result list \<times> run_state) option" where
  "recursiveHelper w dat current acc s0 =
     (let s = s0\<lparr>results := acc\<rparr>
      in if current \<ge> endNum dat \<or> BLOCKED s then
           Some (Inr (acc, if BLOCKED s then say [IPBlocked] s else s))
         else
           (case async_map w (getParams (prefix dat) current (intervalSize dat))
                   (say [Processing current] s) of
              Inl e \<Rightarrow> Some (Inl e)
            | Inr ((err, res), s1) \<Rightarrow>
                (let newCurrent = js_add current (intervalSize dat);
                     s2 = say [Finished newCurrent] s1
                 in case err of
                      Some e \<Rightarrow> recursiveHelper w dat newCurrent acc s2
                    | None \<Rightarrow> recursiveHelper w dat newCurrent (acc @ res) s2)))"

subsection \<open>The aggregator\<close>

text \<open>A bucket: \<^verbatim>\<open>{items, total, type, date, unix}\<close>.\<close>

record bucket =
  items :: "lookup_result list"
  total :: nat
  bucket_type :: string
  bucket_date :: string
  unix :: "int option"

text \<open>The accumulator of \<^verbatim>\<open>group\<close>: an object keyed by date label whose values are
  objects keyed by type, both in insertion order. The labels and types of the script
  contain no \<^verbatim>\<open>.\<close>, so the path \<^verbatim>\<open>dateString + "." + type\<close> has these two keys.\<close>

type_synonym groups = "(string \<times> (string \<times> bucket) list) list"

text \<open>\<^verbatim>\<open>object[key] = value\<close> on an object in insertion order.\<close>

fun set_key :: "'k \<Rightarrow> 'v \<Rightarrow> ('k \<times> 'v) list \<Rightarrow> ('k \<times> 'v) list" where
  "set_key k v [] = [(k, v)]"
| "set_key k v ((k', v') # kvs) =
     (if k' = k then (k, v) # kvs else (k', v') # set_key k v kvs)"

text \<open>\<^verbatim>\<open>_.get(acc, dateString + "." + type)\<close>.\<close>

definition get_path :: "groups \<Rightarrow> string \<Rightarrow> string \<Rightarrow> bucket option" where
  "get_path acc dateString ty =
     (case map_of acc dateString of
        None \<Rightarrow> None
      | Some types \<Rightarrow> map_of types ty)"

text \<open>\<^verbatim>\<open>_.set(acc, dateString + "." + type, value)\<close>.\<close>

definition set_path :: "groups \<Rightarrow> string \<Rightarrow> string \<Rightarrow> bucket \<Rightarrow> groups" where
  "set_path acc dateString ty v =
     set_key dateString
       (set_key ty v (case map_of acc dateString of None \<Rightarrow> [] | Some types \<Rightarrow> types))
       acc"

text \<open>The function that \<^verbatim>\<open>_.reduce\<close> folds over the results in \<^verbatim>\<open>utils.group\<close>;
  \<open>now\<close> is what \<^verbatim>\<open>moment()\<close> reads for the defaults.\<close>

definition group_step :: "world \<Rightarrow> int \<Rightarrow> groups \<Rightarrow> lookup_result \<Rightarrow> groups" where
  "group_step w now acc item =
     (let d = (case date item of Some di \<Rightarrow> date_date di | None \<Rightarrow> Moment now);
          dateString =
            (case date item of
               Some di \<Rightarrow> date_string di
             | None \<Rightarrow> moment_format w (Moment now));
          ty = (case type item of Some t \<Rightarrow> t | None \<Rightarrow> ''UNKNOWN'');
          v = (case get_path acc dateString ty of
                 Some b \<Rightarrow> b
               | None \<Rightarrow>
                   \<lparr>items = [], total = 0, bucket_type = ty, bucket_date = dateString,
                    unix = moment_unix d\<rparr>);
          v = v\<lparr>items := items v @ [item], total := total v + 1\<rparr>
      in set_path acc dateString ty v)"

fun group_reduce :: "world \<Rightarrow> nat \<Rightarrow> groups \<Rightarrow> lookup_result list \<Rightarrow> groups" where
  "group_reduce w i acc [] = acc"
| "group_reduce w i acc (item # rest) =
     group_reduce w (Suc i) (group_step w (group_clock w i) acc item) rest"

text \<open>\<^verbatim>\<open>utils.group(res)\<close>.\<close>

definition group :: "world \<Rightarrow> lookup_result list \<Rightarrow> groups" where
  "group w res = group_reduce w 0 [] res"

text \<open>The buckets of a grouping, their keys, their members and their totals.\<close>

definition buckets :: "groups \<Rightarrow> bucket list" where
  "buckets g = concat (map (\<lambda>(dateString, types). map snd types) g)"

definition bucket_keys :: "groups \<Rightarrow> (string \<times> string) list" where
  "bucket_keys g = concat (map (\<lambda>(dateString, types). map (\<lambda>(ty, b). (dateString, ty)) types) g)"

definition members :: "groups \<Rightarrow> lookup_result list" where
  "members g = concat (map items (buckets g))"

definition totals :: "groups \<Rightarrow> nat" where
  "totals g = sum_list (map total (buckets g))"

text \<open>A property of a date's object in the hash that the final processing returns: a
  bucket under its type, or the object \<^verbatim>\<open>{dateString, unix}\<close> under \<^verbatim>\<open>_metadata\<close>.\<close>

datatype entry = Bucket bucket | Metadata string "int option"

type_synonym hash = "(string \<times> (string \<times> entry) list) list"

text \<open>\<^verbatim>\<open>utils.writeStats(groups)\<close>: the groups as it leaves them. Its
  \<^verbatim>\<open>_.extend(value, {_metadata: ...})\<close> writes the property \<^verbatim>\<open>_metadata\<close> into the object of
  every date, in place. The statistics it prints are not modelled.\<close>

definition writeStats :: "world \<Rightarrow> groups \<Rightarrow> hash" where
  "writeStats w groups =
     map (\<lambda>(key, value).
            (key,
             set_key ''_metadata'' (Metadata key (moment_unix (label_parse w key)))
               (map (\<lambda>(ty, b). (ty, Bucket b)) value)))
       groups"

text \<open>\<^verbatim>\<open>utils.processFinalResults(res)\<close>: the hash it returns, which is the object
  \<open>groups\<close> after \<^verbatim>\<open>writeStats\<close>. The files it writes are not modelled.\<close>

definition processFinalResults :: "world \<Rightarrow> lookup_result list \<Rightarrow> hash" where
  "processFinalResults w res =
     (if length res > 0 then writeStats w (group w res) else [])"

subsection \<open>The run\<close>

text \<open>The command line options \<^verbatim>\<open>{total, prefix, start, limit}\<close>, already numbers.\<close>

record options =
  opt_total :: int
  opt_prefix :: string
  opt_start :: int
  opt_limit :: int

text \<open>\<^verbatim>\<open>run(options, callback)\<close>: the arguments \<open>(err, hash)\<close> of \<open>callback\<close> are
  \<open>(null, hash)\<close>; \<^const>\<open>None\<close> when \<open>callback\<close> is never reached.\<close>

definition run ::
  "world \<Rightarrow> options \<Rightarrow> run_state \<Rightarrow> (exn + hash \<times> run_state) option" where
  "run w opts s =
     (let start = parseInt (opt_start opts);
          dat = \<lparr>prefix = opt_prefix opts,
                 intervalSize = parseInt (opt_limit opts),
                 endNum = js_add start (parseInt (opt_total opts))\<rparr>
      in case recursiveHelper w dat start [] (say [Starting] s) of
           None \<Rightarrow> None
         | Some (Inl e) \<Rightarrow> Some (Inl e)
         | Some (Inr (res, s1)) \<Rightarrow>
             Some (Inr (processFinalResults w res, say [Completed (length res)] s1)))"

text \<open>The state in which the process starts.\<close>

definition initial_state :: run_state where
  "initial_state = \<lparr>BLOCKED = False, results = [], console = [], posted = []\<rparr>"

subsection \<open>An example environment\<close>

text \<open>Pages as htmlparser and soupselect present them, for the concrete runs below.\<close>

definition text_node :: "string \<Rightarrow> node" where
  "text_node s = Node [] None (Some s) (Some s)"

definition element :: "(string \<times> string) list \<Rightarrow> node list \<Rightarrow> node" where
  "element as cs = Node as (Some cs) None None"

text \<open>A case status page: a heading and a paragraph inside \<^verbatim>\<open>div.rows\<close>.\<close>

definition status_page :: "string \<Rightarrow> string \<Rightarrow> dom" where
  "status_page title text =
     (\<lambda>selector.
        if selector = ''div.rows h1'' then [element [] [text_node title]]
        else if selector = ''div.rows p'' then [element [] [text_node text]]
        else [])"

text \<open>The page of a blocked client: no status, a label for \<^verbatim>\<open>accessviolation\<close>.\<close>

definition blocked_page :: dom where
  "blocked_page =
     (\<lambda>selector.
        if selector = ''label'' then
          [element [(''for'', ''accessviolation'')] [text_node ''Access violation'']]
        else [])"

text \<open>The form with a validation error: the receipt number does not exist.\<close>

definition not_found_page :: dom where
  "not_found_page =
     (\<lambda>selector.
        if selector = ''label'' then
          [element [(''for'', ''receipt_number'')] [text_node ''Enter a Receipt Number'']]
        else if selector = ''#formErrorMessages h4'' then
          [element [] [text_node ''Validation Error(s)'']]
        else [])"

text \<open>The form with another error heading.\<close>

definition other_error_page :: dom where
  "other_error_page =
     (\<lambda>selector.
        if selector = ''label'' then
          [element [(''for'', ''receipt_number'')] [text_node ''Enter a Receipt Number'']]
        else if selector = ''#formErrorMessages h4'' then
          [element [] [text_node ''Service Unavailable'']]
        else [])"

text \<open>The form without any error message.\<close>

definition form_page :: dom where
  "form_page =
     (\<lambda>selector.
        if selector = ''label'' then
          [element [(''for'', ''receipt_number'')] [text_node ''Enter a Receipt Number'']]
        else [])"

text \<open>A stand-in for moment's formatter, a label that depends on the day only, and for
  its parser of such labels.\<close>

fun example_format :: "moment \<Rightarrow> string" where
  "example_format (Moment t) = ''day '' @ numeral_string (t div 86400)"
| "example_format InvalidMoment = ''Invalid date''"

text \<open>The number a string of digits denotes.\<close>

definition digits_value :: "string \<Rightarrow> nat" where
  "digits_value s = foldl (\<lambda>v c. 10 * v + (of_char c - 48)) 0 s"

definition example_label_parse :: "string \<Rightarrow> moment" where
  "example_label_parse s =
     (if take 4 s = ''day '' then Moment (int (digits_value (drop 4 s)) * 86400)
      else InvalidMoment)"

text \<open>The walk of \<^verbatim>\<open>_.has\<close> (lodash 4.17) along a path of keys, from a string value: a
  string has the own properties \<^verbatim>\<open>length\<close>, a number without properties of its own, and
  its indices, each a string of one character (which character does not matter for the
  walk).\<close>

fun string_has :: "string \<Rightarrow> string list \<Rightarrow> bool" where
  "string_has v [] = True"
| "string_has v (k # ks) =
     (if k = ''length'' then ks = []
      else k \<in> set (map decimal [0..<length v]) \<and> string_has (take 1 v) ks)"

text \<open>The answer of \<^verbatim>\<open>_.has\<close> for a path with dots and without brackets, whose keys are
  the pieces between the dots; a stand-in (\<^const>\<open>False\<close>) for a path with brackets.\<close>

definition example_has_path :: "(string \<times> string) list \<Rightarrow> string \<Rightarrow> bool" where
  "example_has_path object path =
     (CHR ''['' \<notin> set path \<and>
      (case split_on CHR ''.'' path of
         [] \<Rightarrow> False
       | k # ks \<Rightarrow> (case map_of object k of None \<Rightarrow> False | Some v \<Rightarrow> string_has v ks)))"

text \<open>An environment in which seven case numbers answer with a page each, one answers
  with a body that does not parse, and every other request fails in transport. Its date
  parser knows one date.\<close>

definition example_world :: world where
  "example_world =
     \<lparr>request_post =
        (\<lambda>num.
           if num = ''IOE0900677920'' then Response ''dotted''
           else if num = ''IOE0900677923'' then Response ''approved''
           else if num = ''IOE0900677924'' then Response ''blocked''
           else if num = ''IOE0900677925'' then Response ''notfound''
           else if num = ''IOE0900677926'' then Response ''form''
           else if num = ''IOE0900677927'' then Response ''new''
           else if num = ''IOE0900677928'' then Response ''other''
           else if num = ''IOE0900677929'' then Response ''garbage''
           else RequestError),
      clock = (\<lambda>num. 1472400000),
      group_clock = (\<lambda>i. 1472400000),
      htmlparser =
        (\<lambda>body.
           if body = ''approved'' then
             Document (status_page ''Case Was Approved''
               ''On August 24, 2016, we approved your Form I-765.'')
           else if body = ''blocked'' then Document blocked_page
           else if body = ''notfound'' then Document not_found_page
           else if body = ''form'' then Document form_page
           else if body = ''new'' then
             Document (status_page ''Something New'' ''Your case is being processed.'')
           else if body = ''other'' then Document other_error_page
           else if body = ''dotted'' then
             Document (status_page ''Case Was Approved.length''
               ''On August 24, 2016, we approved your Form I-765.'')
           else ParseError),
      moment_parse =
        (\<lambda>s. if s = ''August 24,  2016'' then Moment 1472014800 else InvalidMoment),
      moment_format = example_format,
      label_parse = example_label_parse,
      has_path = example_has_path\<rparr>"

text \<open>The same environment without a network: every request fails in transport.\<close>

definition offline_world :: world where
  "offline_world = example_world\<lparr>request_post := (\<lambda>num. RequestError)\<rparr>"

subsection \<open>Auxiliary definitions for the proofs\<close>

text \<open>The numeral of \<open>n\<close> in exactly \<open>w\<close> digits (the last \<open>w\<close> digits of \<open>n\<close>).\<close>

fun fixed :: "nat \<Rightarrow> nat \<Rightarrow> string" where
  "fixed 0 n = []"
| "fixed (Suc w) n = fixed w (n div 10) @ [digit (n mod 10)]"

section \<open>Properties\<close>

subsection \<open>The identifier generator\<close>

lemma pad_while_eq: "pad_while s sz = replicate (sz - length s) CHR ''0'' @ s"
proof (induction s sz rule: pad_while.induct)
  case (1 s sz)
  show ?case
  proof (cases "length s < sz")
    case True
    then have "sz - length s = Suc (sz - length (CHR ''0'' # s))" by simp
    with True 1 show ?thesis
      by (subst pad_while.simps) (simp add: replicate_append_same)
  next
    case False
    then show ?thesis by (subst pad_while.simps) simp
  qed
qed

lemma of_char_digit: "d < 10 \<Longrightarrow> of_char (digit d) = 48 + d"
proof -
  assume "d < 10"
  then have "d \<in> {0, 1, 2, 3, 4, 5, 6, 7, 8, 9}" by auto
  then show ?thesis by (auto simp: digit_def)
qed

lemma digit_mono: "a < b \<Longrightarrow> b < 10 \<Longrightarrow> digit a < digit b"
  by (simp add: of_char_digit less_char_def)

lemma digits_value_snoc: "digits_value (s @ [c]) = 10 * digits_value s + (of_char c - 48)"
  by (simp add: digits_value_def)

lemma digits_value_decimal: "digits_value (decimal n) = n"
proof (induction n rule: decimal.induct)
  case (1 n)
  show ?case
  proof (cases "n < 10")
    case True
    then show ?thesis
      by (subst decimal.simps) (simp add: digits_value_def of_char_digit)
  next
    case False
    with 1 have "digits_value (decimal (n div 10)) = n div 10" by simp
    with False show ?thesis
      by (subst decimal.simps) (simp add: digits_value_snoc of_char_digit)
  qed
qed

lemma digits_value_zeros: "digits_value (replicate k CHR ''0'' @ s) = digits_value s"
proof -
  have "foldl (\<lambda>v c. 10 * v + (of_char c - 48)) 0 (replicate k CHR ''0'') = (0::nat)"
    by (induction k) simp_all
  then show ?thesis by (simp add: digits_value_def)
qed

lemma toString_numeral: "\<bar>n\<bar> \<le> 9007199254740992 \<Longrightarrow> toString n = numeral_string n"
  by (simp add: toString_def)

lemma parseInt_numeral: "\<bar>n\<bar> < 1000000000000000000000 \<Longrightarrow> parseInt n = n"
  by (simp add: parseInt_def)

lemma bit_length_le: "n < 2 ^ k \<Longrightarrow> bit_length n \<le> k"
proof (induction k arbitrary: n)
  case 0
  then show ?case by (simp add: bit_length.simps)
next
  case (Suc k)
  show ?case
  proof (cases "n = 0")
    case True
    then show ?thesis by (simp add: bit_length.simps)
  next
    case False
    from Suc.prems have "n div 2 < 2 ^ k" by simp
    from Suc.IH [OF this] False show ?thesis by (subst bit_length.simps) simp
  qed
qed

text \<open>The integers up to \<open>2^53\<close> in magnitude are doubles.\<close>

lemma double_round_exact: "\<bar>x\<bar> \<le> 9007199254740992 \<Longrightarrow> double_round x = x"
proof -
  assume a: "\<bar>x\<bar> \<le> 9007199254740992"
  show ?thesis
  proof (cases "\<bar>x\<bar> = 9007199254740992")
    case True
    have "bit_length (2 ^ k) = Suc k" for k
      by (induction k) (simp_all add: bit_length.simps)
    from this [of 53] have "bit_length 9007199254740992 = 54" by simp
    moreover from True have "nat \<bar>x\<bar> = 9007199254740992" by simp
    ultimately have "double_round x = sgn x * 9007199254740992"
      by (simp add: double_round_def Let_def)
    with True show ?thesis by (cases "x < 0") simp_all
  next
    case False
    with a have "nat \<bar>x\<bar> < 2 ^ 53" by simp
    then have "bit_length (nat \<bar>x\<bar>) \<le> 53" by (rule bit_length_le)
    then have "bit_length (nat \<bar>x\<bar>) - 53 = 0" by simp
    then have "double_round x = sgn x * int (nat \<bar>x\<bar>)"
      by (simp add: double_round_def Let_def)
    then show ?thesis by (simp add: mult_sgn_abs)
  qed
qed

lemma js_add_exact: "\<bar>a + b\<bar> \<le> 9007199254740992 \<Longrightarrow> js_add a b = a + b"
  by (simp add: js_add_def double_round_exact)

lemma digits_value_pad:
  "0 \<le> n \<Longrightarrow> n \<le> 9007199254740992 \<Longrightarrow> digits_value (pad n sz) = nat n"
  by (simp add: pad_def pad_while_eq digits_value_zeros toString_def numeral_string_def
        digits_value_decimal)

lemma length_fixed: "length (fixed w n) = w"
  by (induction w arbitrary: n) auto

lemma fixed_zero: "fixed w 0 = replicate w CHR ''0''"
  by (induction w) (auto simp: digit_def replicate_append_same)

lemma pad_decimal_fixed:
  "n < 10 ^ w \<Longrightarrow> 0 < w \<Longrightarrow> replicate (w - length (decimal n)) CHR ''0'' @ decimal n = fixed w n"
proof (induction w arbitrary: n)
  case 0 then show ?case by simp
next
  case (Suc w)
  show ?case
  proof (cases "n < 10")
    case True
    then show ?thesis
      by (subst (1 2) decimal.simps) (simp add: fixed_zero)
  next
    case False
    then have w: "w > 0" using Suc.prems by (cases w) auto
    have d: "n div 10 < 10 ^ w" using Suc.prems by (simp add: less_mult_imp_div_less mult.commute)
    have "replicate (w - length (decimal (n div 10))) CHR ''0'' @ decimal (n div 10) = fixed w (n div 10)"
      using Suc.IH[OF d w] .
    with False show ?thesis by (subst (1 2) decimal.simps) simp
  qed
qed

lemma pad_fixed: "0 \<le> n \<Longrightarrow> n < 10 ^ k \<Longrightarrow> 0 < k \<Longrightarrow> k \<le> 15 \<Longrightarrow> pad n k = fixed k (nat n)"
proof -
  assume a: "0 \<le> n" "n < 10 ^ k" "0 < k" "k \<le> 15"
  then have "nat n < 10 ^ k" by (simp add: nat_less_iff)
  moreover from a(4) have "(10::int) ^ k \<le> 10 ^ 15" by (intro power_increasing) simp_all
  with a(1,2) have "\<bar>n\<bar> \<le> 9007199254740992" by simp
  ultimately show ?thesis using a
    by (simp add: pad_def pad_while_eq toString_numeral numeral_string_def pad_decimal_fixed)
qed

lemma fixed_less: "m < n \<Longrightarrow> n < 10 ^ w \<Longrightarrow> fixed w m < fixed w n"
proof (induction w arbitrary: m n)
  case 0 then show ?case by simp
next
  case (Suc w)
  have nd: "n div 10 < 10 ^ w" using Suc.prems by (simp add: less_mult_imp_div_less mult.commute)
  have le: "m div 10 \<le> n div 10" using Suc.prems(1) by (simp add: div_le_mono)
  show ?case
  proof (cases "m div 10 < n div 10")
    case True
    then have "fixed w (m div 10) < fixed w (n div 10)" using Suc.IH nd by blast
    then show ?thesis
      by (simp add: list_less_def lexord_sufI length_fixed)
  next
    case False
    with le have eq: "m div 10 = n div 10" by simp
    have "m mod 10 < n mod 10" using Suc.prems(1) eq
      by (metis div_mult_mod_eq nat_add_left_cancel_less)
    then have "digit (m mod 10) < digit (n mod 10)" by (rule digit_mono) simp
    then show ?thesis using eq
      by (simp add: list_less_def lexord_append_leftI)
  qed
qed

lemma length_getParams:
  "length (getParams p start number) =
     (if number < 1 \<or> 9007199254740991 < number then 0 else nat (min number 4294967295))"
  by (simp add: getParams_def lodash_times_def)

text \<open>Within the integers that doubles hold exactly, the identifiers are those of
  \<open>start, start + 1, ...\<close>.\<close>

lemma getParams_exact:
  assumes "- 9007199254740992 \<le> start" "number \<le> 4294967295"
    and "start + number \<le> 9007199254740992"
  shows "getParams p start number =
           map (\<lambda>i. p @ pad (start + int i) caseNumLength) [0..<nat number]"
proof (cases "number < 1")
  case True
  then show ?thesis by (simp add: getParams_def lodash_times_def)
next
  case False
  with assms have s: "\<bar>start\<bar> < 1000000000000000000000" by simp
  have "js_add start (int i) = start + int i" if "i < nat number" for i
    using that assms by (intro js_add_exact) simp
  with False assms(2) show ?thesis
    by (simp add: getParams_def lodash_times_def parseInt_numeral [OF s] min_def)
qed

lemma nth_getParams:
  assumes "- 9007199254740992 \<le> start" "number \<le> 4294967295"
    and "start + number \<le> 9007199254740992" "i < nat number"
  shows "getParams p start number ! i = p @ pad (start + int i) caseNumLength"
  using assms(4) by (simp add: getParams_exact [OF assms(1-3)])

lemma distinct_getParams:
  assumes "0 \<le> start" "number \<le> 4294967295" "start + number \<le> 9007199254740992"
  shows "distinct (getParams p start number)"
proof -
  have "inj_on (\<lambda>i. p @ pad (start + int i) caseNumLength) (set [0..<nat number])"
  proof (rule inj_onI)
    fix x y
    assume x: "x \<in> set [0..<nat number]" and y: "y \<in> set [0..<nat number]"
    assume "p @ pad (start + int x) caseNumLength = p @ pad (start + int y) caseNumLength"
    then have "digits_value (pad (start + int x) caseNumLength) =
               digits_value (pad (start + int y) caseNumLength)"
      by simp
    moreover from x assms have "start + int x \<le> 9007199254740992" by simp
    moreover from y assms have "start + int y \<le> 9007199254740992" by simp
    ultimately show "x = y" using assms(1) by (simp add: digits_value_pad)
  qed
  then show ?thesis
    using assms by (simp add: getParams_exact distinct_map)
qed

lemma sorted_getParams:
  assumes "0 \<le> start" "start + number \<le> 10 ^ caseNumLength" "number \<le> 4294967295"
  shows "sorted_wrt (<) (getParams p start number)"
proof -
  from assms have r: "- 9007199254740992 \<le> start" "number \<le> 4294967295"
    "start + number \<le> 9007199254740992"
    by (simp_all add: caseNumLength_def)
  have "getParams p start number ! i < getParams p start number ! j"
    if "i < j" "j < nat number" for i j
  proof -
    have b: "start + int j < 10 ^ caseNumLength" "start + int i < 10 ^ caseNumLength"
      using assms that by linarith+
    have "fixed caseNumLength (nat (start + int i)) < fixed caseNumLength (nat (start + int j))"
      using assms(1) that(1) b by (intro fixed_less) (auto simp: nat_less_iff)
    then have "pad (start + int i) caseNumLength < pad (start + int j) caseNumLength"
      using assms(1) b by (simp add: pad_fixed caseNumLength_def)
    then show ?thesis using that
      by (simp add: nth_getParams [OF r] list_less_def lexord_append_leftI)
  qed
  moreover have "length (getParams p start number) = nat number"
    by (simp add: getParams_exact [OF r])
  ultimately show ?thesis
    by (simp add: sorted_wrt_iff_nth_less)
qed

lemma length_nth_getParams:
  assumes "0 \<le> start" "start + number \<le> 10 ^ caseNumLength" "i < nat number"
    and "number \<le> 4294967295"
  shows "length (getParams p start number ! i) = length p + caseNumLength"
proof -
  from assms have r: "- 9007199254740992 \<le> start" "number \<le> 4294967295"
    "start + number \<le> 9007199254740992"
    by (simp_all add: caseNumLength_def)
  have "start + int i < 10 ^ caseNumLength" using assms by linarith
  then show ?thesis using assms
    by (simp add: nth_getParams [OF r] pad_fixed length_fixed caseNumLength_def)
qed

lemmas getParams_eval =
  getParams_def lodash_times_def pad_def toString_def parseInt_def js_add_exact
  numeral_string_def pad_while.simps decimal.simps digit_def caseNumLength_def upt_rec

text \<open>
  Claim C3, as the code has it. Take a start \<open>\<ge> 0\<close>, a number \<open>> 0\<close> that is at most
  \<open>2^32 - 1\<close> (the longest array \<^verbatim>\<open>_.times\<close> builds), and \<open>start + number \<le> 2^53\<close> (the
  integers that the sums of the code hold exactly). Then \<^verbatim>\<open>getParams\<close> yields exactly
  \<open>number\<close> identifiers, the \<open>i\<close>-th being the prefix followed by the numeral of
  \<open>start + i\<close> padded with zeros on the left up to ten characters, and they are pairwise
  distinct. As long as \<open>start + number \<le> 10^10\<close> every identifier has the fixed width
  (prefix plus ten digits) and the identifiers increase strictly in string order. The
  scenario of the specification is the last conjunct.
\<close>

theorem getParams_identifiers:
  "0 \<le> start \<Longrightarrow> 0 < number \<Longrightarrow> number \<le> 4294967295 \<Longrightarrow>
   start + number \<le> 9007199254740992 \<Longrightarrow>
     length (getParams p start number) = nat number \<and>
     (\<forall>i < nat number. getParams p start number ! i =
        p @ replicate (caseNumLength - length (numeral_string (start + int i))) CHR ''0''
          @ numeral_string (start + int i)) \<and>
     distinct (getParams p start number) \<and>
     (start + number \<le> 10 ^ caseNumLength \<longrightarrow>
        (\<forall>i < nat number. length (getParams p start number ! i) = length p + caseNumLength) \<and>
        sorted_wrt (<) (getParams p start number)) \<and>
     getParams ''IOE'' 900677923 3 = [''IOE0900677923'', ''IOE0900677924'', ''IOE0900677925'']"
proof (intro conjI allI impI)
  show "getParams ''IOE'' 900677923 3 = [''IOE0900677923'', ''IOE0900677924'', ''IOE0900677925'']"
    by (simp add: getParams_eval)
next
  assume "0 < number" "number \<le> 4294967295"
  then show "length (getParams p start number) = nat number"
    by (simp add: length_getParams)
next
  fix i
  assume a: "0 \<le> start" "number \<le> 4294967295" "start + number \<le> 9007199254740992"
    "i < nat number"
  then have "\<bar>start + int i\<bar> \<le> 9007199254740992" by simp
  with a show "getParams p start number ! i =
        p @ replicate (caseNumLength - length (numeral_string (start + int i))) CHR ''0''
          @ numeral_string (start + int i)"
    by (simp add: nth_getParams pad_def pad_while_eq toString_numeral)
next
  assume "0 \<le> start" "number \<le> 4294967295" "start + number \<le> 9007199254740992"
  then show "distinct (getParams p start number)" by (rule distinct_getParams)
next
  fix i assume "0 \<le> start" "start + number \<le> 10 ^ caseNumLength" "i < nat number"
    "number \<le> 4294967295"
  then show "length (getParams p start number ! i) = length p + caseNumLength"
    by (rule length_nth_getParams)
next
  assume "0 \<le> start" "start + number \<le> 10 ^ caseNumLength" "number \<le> 4294967295"
  then show "sorted_wrt (<) (getParams p start number)" by (rule sorted_getParams)
qed

text \<open>The theorem at prefix \<open>IOE\<close>, start 900677923 and number 3.\<close>

theorem getParams_identifiers_witness:
  "length (getParams ''IOE'' 900677923 3) = 3 \<and>
   getParams ''IOE'' 900677923 3 ! 2 =
     ''IOE'' @ replicate (10 - 9) CHR ''0'' @ ''900677925'' \<and>
   distinct (getParams ''IOE'' 900677923 3) \<and>
   length (getParams ''IOE'' 900677923 3 ! 2) = 3 + 10 \<and>
   sorted_wrt (<) (getParams ''IOE'' 900677923 3)"
proof -
  have h: "(0::int) \<le> 900677923" "(0::int) < 3" "(3::int) \<le> 4294967295"
    "(900677923::int) + 3 \<le> 9007199254740992"
    "(900677923::int) + 3 \<le> 10 ^ caseNumLength"
    by (simp_all add: caseNumLength_def)
  have t: "numeral_string (900677923 + int 2) = ''900677925''"
    by (simp add: numeral_string_def decimal.simps digit_def)
  have i: "(2::nat) < nat 3" by simp
  note inst = getParams_identifiers [OF h(1) h(2) h(3) h(4), of "''IOE''"]
  from inst have "length (getParams ''IOE'' 900677923 3) = 3" by simp
  moreover from inst i have "getParams ''IOE'' 900677923 3 ! 2 =
      ''IOE'' @ replicate (caseNumLength - length (numeral_string (900677923 + int 2))) CHR ''0''
        @ numeral_string (900677923 + int 2)"
    by blast
  then have "getParams ''IOE'' 900677923 3 ! 2 =
      ''IOE'' @ replicate (10 - 9) CHR ''0'' @ ''900677925''"
    unfolding t by (simp add: caseNumLength_def)
  moreover from inst have "distinct (getParams ''IOE'' 900677923 3)" by blast
  moreover from inst h(5) i
  have "length (getParams ''IOE'' 900677923 3 ! 2) = length ''IOE'' + caseNumLength"
    by blast
  then have "length (getParams ''IOE'' 900677923 3 ! 2) = 3 + 10"
    by (simp add: caseNumLength_def)
  moreover from inst h(5) have "sorted_wrt (<) (getParams ''IOE'' 900677923 3)"
    by blast
  ultimately show ?thesis by blast
qed

text \<open>
  Claim C3 as stated fails beyond ten digits: \<^verbatim>\<open>pad\<close> never truncates, so from start
  9999999999 the second identifier is one character wider than the first, and it is
  smaller in string order. It fails beyond \<open>2^53\<close> as well: from start \<open>2^53\<close> the sum
  \<open>2^53 + 1\<close> is rounded to \<open>2^53\<close> and the two identifiers are the same.
\<close>

theorem getParams_width_counterexample:
  "getParams ''IOE'' 9999999999 2 = [''IOE9999999999'', ''IOE10000000000''] \<and>
   length (getParams ''IOE'' 9999999999 2 ! 0) = 13 \<and>
   length (getParams ''IOE'' 9999999999 2 ! 1) = 14 \<and>
   \<not> getParams ''IOE'' 9999999999 2 ! 0
       < getParams ''IOE'' 9999999999 2 ! 1 \<and>
   getParams ''IOE'' 9007199254740992 2 =
     [''IOE9007199254740992'', ''IOE9007199254740992'']"
proof -
  have "getParams ''IOE'' 9999999999 2 = [''IOE9999999999'', ''IOE10000000000'']"
    by (simp add: getParams_eval)
  moreover have "js_add 9007199254740992 1 = 9007199254740992"
  proof -
    have "bit_length (2 ^ k) = Suc k" for k
      by (induction k) (simp_all add: bit_length.simps)
    from this [of 52] have "bit_length 4503599627370496 = 53" by simp
    then have "bit_length 9007199254740993 = 54"
      by (subst bit_length.simps) simp
    then show ?thesis by (simp add: js_add_def double_round_def Let_def)
  qed
  then have "getParams ''IOE'' 9007199254740992 2 =
     [''IOE9007199254740992'', ''IOE9007199254740992'']"
    by (simp add: getParams_eval)
  ultimately show ?thesis by simp
qed

subsection \<open>The aggregator\<close>

lemma set_key_None: "map_of kvs k = None \<Longrightarrow> set_key k v kvs = kvs @ [(k, v)]"
  by (induction kvs) (auto split: if_splits)

lemma set_key_Some:
  "map_of kvs k = Some v0 \<Longrightarrow>
     \<exists>pre post. kvs = pre @ (k, v0) # post \<and> set_key k v kvs = pre @ (k, v) # post"
proof (induction kvs)
  case Nil
  then show ?case by simp
next
  case (Cons kv kvs)
  obtain k' v' where kv: "kv = (k', v')" by (cases kv)
  show ?case
  proof (cases "k' = k")
    case True
    with Cons.prems kv have "kv # kvs = [] @ (k, v0) # kvs \<and> set_key k v (kv # kvs) = [] @ (k, v) # kvs"
      by simp
    then show ?thesis by blast
  next
    case False
    with Cons kv obtain pre post where "kvs = pre @ (k, v0) # post" "set_key k v kvs = pre @ (k, v) # post"
      by auto
    with False kv have "kv # kvs = (kv # pre) @ (k, v0) # post \<and> set_key k v (kv # kvs) = (kv # pre) @ (k, v) # post"
      by simp
    then show ?thesis by blast
  qed
qed

lemma map_fst_set_key:
  "map fst (set_key k v kvs) = (if k \<in> fst ` set kvs then map fst kvs else map fst kvs @ [k])"
  by (induction kvs) (auto split: if_splits)

lemma buckets_append: "buckets (g @ h) = buckets g @ buckets h"
  by (simp add: buckets_def)

lemma buckets_Cons: "buckets ((d, types) # g) = map snd types @ buckets g"
  by (simp add: buckets_def)

lemma buckets_set_path_None:
  assumes "get_path acc d t = None"
  shows "\<exists>A B. buckets acc = A @ B \<and> buckets (set_path acc d t v) = A @ v # B"
proof (cases "map_of acc d")
  case None
  then have "set_path acc d t v = acc @ [(d, [(t, v)])]"
    by (simp add: set_path_def set_key_None)
  then have "buckets acc = buckets acc @ [] \<and> buckets (set_path acc d t v) = buckets acc @ v # []"
    by (simp add: buckets_append buckets_Cons) (simp add: buckets_def)
  then show ?thesis by blast
next
  case (Some types)
  with assms have t: "map_of types t = None" by (simp add: get_path_def)
  from set_key_Some [OF Some, of "set_key t v types"] obtain pre post where a:
    "acc = pre @ (d, types) # post"
    "set_key d (set_key t v types) acc = pre @ (d, set_key t v types) # post"
    by blast
  have "set_path acc d t v = pre @ (d, types @ [(t, v)]) # post"
    unfolding set_path_def Some option.case a(2) by (simp add: set_key_None [OF t])
  then have "buckets (set_path acc d t v) = (buckets pre @ map snd types) @ v # buckets post"
    by (simp add: buckets_append buckets_Cons)
  moreover have "buckets acc = (buckets pre @ map snd types) @ buckets post"
    by (subst a(1)) (simp add: buckets_append buckets_Cons)
  ultimately show ?thesis by blast
qed

lemma buckets_set_path_Some:
  assumes "get_path acc d t = Some v0"
  shows "\<exists>A B. buckets acc = A @ v0 # B \<and> buckets (set_path acc d t v) = A @ v # B"
proof (cases "map_of acc d")
  case None
  with assms show ?thesis by (simp add: get_path_def)
next
  case (Some types)
  with assms have t: "map_of types t = Some v0" by (simp add: get_path_def)
  from set_key_Some [OF Some, of "set_key t v types"] obtain pre post where a:
    "acc = pre @ (d, types) # post"
    "set_key d (set_key t v types) acc = pre @ (d, set_key t v types) # post"
    by blast
  from set_key_Some [OF t, of v] obtain pre' post' where b:
    "types = pre' @ (t, v0) # post'" "set_key t v types = pre' @ (t, v) # post'"
    by blast
  have "set_path acc d t v = pre @ (d, pre' @ (t, v) # post') # post"
    unfolding set_path_def Some option.case a(2) by (simp add: b(2))
  then have "buckets (set_path acc d t v) = (buckets pre @ map snd pre') @ v # (map snd post' @ buckets post)"
    by (simp add: buckets_append buckets_Cons)
  moreover have "buckets acc = (buckets pre @ map snd pre') @ v0 # (map snd post' @ buckets post)"
    by (subst a(1)) (simp add: b(1) buckets_append buckets_Cons)
  ultimately show ?thesis by blast
qed

text \<open>What one step of the fold does to the list of buckets.\<close>

lemma buckets_group_step:
  "\<exists>A old B new.
      buckets acc = A @ old @ B \<and>
      buckets (group_step w now acc item) = A @ new # B \<and>
      items new = concat (map items old) @ [item] \<and>
      total new = sum_list (map total old) + 1"
proof -
  define dateString where
    "dateString = (case date item of Some di \<Rightarrow> date_string di | None \<Rightarrow> moment_format w (Moment now))"
  define ty where "ty = (case type item of Some t \<Rightarrow> t | None \<Rightarrow> ''UNKNOWN'')"
  show ?thesis
  proof (cases "get_path acc dateString ty")
    case None
    define new where "new = \<lparr>items = [item], total = 1, bucket_type = ty, bucket_date = dateString,
        unix = moment_unix (case date item of Some di \<Rightarrow> date_date di | None \<Rightarrow> Moment now)\<rparr>"
    have step: "group_step w now acc item = set_path acc dateString ty new"
      using None by (simp add: group_step_def Let_def dateString_def ty_def new_def)
    from buckets_set_path_None [OF None, of new] obtain A B where
      "buckets acc = A @ B" "buckets (set_path acc dateString ty new) = A @ new # B"
      by blast
    with step have "buckets acc = A @ [] @ B \<and> buckets (group_step w now acc item) = A @ new # B \<and>
        items new = concat (map items []) @ [item] \<and> total new = sum_list (map total []) + 1"
      by (simp add: new_def)
    then show ?thesis by blast
  next
    case (Some v0)
    define new where "new = v0\<lparr>items := items v0 @ [item], total := total v0 + 1\<rparr>"
    have step: "group_step w now acc item = set_path acc dateString ty new"
      using Some by (simp add: group_step_def Let_def dateString_def ty_def new_def)
    from buckets_set_path_Some [OF Some, of new] obtain A B where
      "buckets acc = A @ v0 # B" "buckets (set_path acc dateString ty new) = A @ new # B"
      by blast
    with step have "buckets acc = A @ [v0] @ B \<and> buckets (group_step w now acc item) = A @ new # B \<and>
        items new = concat (map items [v0]) @ [item] \<and> total new = sum_list (map total [v0]) + 1"
      by (simp add: new_def)
    then show ?thesis by blast
  qed
qed

lemma members_group_step: "mset (members (group_step w now acc item)) = mset (members acc) + {#item#}"
proof -
  obtain A old B new where
    "buckets acc = A @ old @ B" "buckets (group_step w now acc item) = A @ new # B"
    "items new = concat (map items old) @ [item]"
    using buckets_group_step [of acc w now item] by (elim exE conjE)
  then show ?thesis by (simp add: members_def)
qed

lemma totals_group_step: "totals (group_step w now acc item) = totals acc + 1"
proof -
  obtain A old B new where
    "buckets acc = A @ old @ B" "buckets (group_step w now acc item) = A @ new # B"
    "total new = sum_list (map total old) + 1"
    using buckets_group_step [of acc w now item] by (elim exE conjE)
  then show ?thesis by (simp add: totals_def)
qed

lemma counts_group_step:
  assumes "map total (buckets acc) = map (\<lambda>b. length (items b)) (buckets acc)"
  shows "map total (buckets (group_step w now acc item)) =
         map (\<lambda>b. length (items b)) (buckets (group_step w now acc item))"
proof -
  obtain A old B new where s:
    "buckets acc = A @ old @ B" "buckets (group_step w now acc item) = A @ new # B"
    "items new = concat (map items old) @ [item]"
    "total new = sum_list (map total old) + 1"
    using buckets_group_step [of acc w now item] by (elim exE conjE)
  from assms s(1) have "map total A = map (\<lambda>b. length (items b)) A"
    "map total old = map (\<lambda>b. length (items b)) old"
    "map total B = map (\<lambda>b. length (items b)) B"
    by simp_all
  with s show ?thesis by (simp add: length_concat comp_def)
qed

lemma members_group_reduce:
  "mset (members (group_reduce w i acc res)) = mset (members acc) + mset res"
  by (induction res arbitrary: i acc) (simp_all add: members_group_step)

lemma totals_group_reduce: "totals (group_reduce w i acc res) = totals acc + length res"
  by (induction res arbitrary: i acc) (simp_all add: totals_group_step)

lemma counts_group_reduce:
  "map total (buckets acc) = map (\<lambda>b. length (items b)) (buckets acc) \<Longrightarrow>
   map total (buckets (group_reduce w i acc res)) =
     map (\<lambda>b. length (items b)) (buckets (group_reduce w i acc res))"
proof (induction res arbitrary: i acc)
  case Nil
  then show ?case by simp
next
  case (Cons item res)
  from Cons.prems
  have "map total (buckets (group_step w (group_clock w i) acc item)) =
        map (\<lambda>b. length (items b)) (buckets (group_step w (group_clock w i) acc item))"
    by (rule counts_group_step)
  from Cons.IH [OF this] show ?case by (simp only: group_reduce.simps)
qed

text \<open>The keys of the buckets stay pairwise distinct.\<close>

lemma bucket_keys_append: "bucket_keys (g @ h) = bucket_keys g @ bucket_keys h"
  by (simp add: bucket_keys_def)

lemma bucket_keys_Cons:
  "bucket_keys ((d, types) # g) = map (\<lambda>t. (d, t)) (map fst types) @ bucket_keys g"
  by (simp add: bucket_keys_def case_prod_unfold comp_def)

lemma bucket_keys_Nil: "bucket_keys [] = []"
  by (simp add: bucket_keys_def)

lemma bucket_keys_fst: "(a, b) \<in> set (bucket_keys g) \<Longrightarrow> a \<in> fst ` set g"
  by (induction g) (auto simp: bucket_keys_Cons bucket_keys_Nil)

lemma distinct_pairs: "distinct (map (\<lambda>x. (d, fst x)) types) = distinct (map fst types)"
  by (induction types) auto

lemma keys_set_path:
  assumes "distinct (map fst acc)" "distinct (bucket_keys acc)"
  shows "distinct (map fst (set_path acc d t v)) \<and> distinct (bucket_keys (set_path acc d t v))"
proof (cases "map_of acc d")
  case None
  then have new: "set_path acc d t v = acc @ [(d, [(t, v)])]"
    by (simp add: set_path_def set_key_None)
  from None have d: "d \<notin> fst ` set acc" by (simp add: map_of_eq_None_iff)
  then have "(d, t) \<notin> set (bucket_keys acc)" using bucket_keys_fst by blast
  with assms d show ?thesis
    by (simp add: new bucket_keys_append bucket_keys_Cons bucket_keys_Nil)
next
  case (Some types)
  from set_key_Some [OF Some, of "set_key t v types"] obtain pre post where a:
    "acc = pre @ (d, types) # post"
    "set_key d (set_key t v types) acc = pre @ (d, set_key t v types) # post"
    by blast
  have new: "set_path acc d t v = pre @ (d, set_key t v types) # post"
    unfolding set_path_def Some option.case a(2) ..
  from assms(1) have dpre: "d \<notin> fst ` set pre" and dpost: "d \<notin> fst ` set post"
    and dist: "distinct (map fst pre)" "distinct (map fst post)"
      "fst ` set pre \<inter> fst ` set post = {}"
    by (auto simp: a(1))
  from assms(2) have k: "distinct (bucket_keys pre)" "distinct (map fst types)"
    "distinct (bucket_keys post)" "set (bucket_keys pre) \<inter> set (bucket_keys post) = {}"
    by (auto simp: a(1) bucket_keys_append bucket_keys_Cons distinct_pairs comp_def)
  have fresh: "(d, x) \<notin> set (bucket_keys pre)" "(d, x) \<notin> set (bucket_keys post)" for x
    using dpre dpost bucket_keys_fst by blast+
  have types': "distinct (map fst (set_key t v types))"
    using k(2) by (auto simp: map_fst_set_key)
  have "distinct (map fst (set_path acc d t v))"
    using dpre dpost dist by (auto simp: new)
  moreover have "distinct (bucket_keys (set_path acc d t v))"
    using k fresh types'
    by (auto simp: new bucket_keys_append bucket_keys_Cons distinct_pairs comp_def)
  ultimately show ?thesis by blast
qed

lemma keys_group_step:
  "distinct (map fst acc) \<Longrightarrow> distinct (bucket_keys acc) \<Longrightarrow>
   distinct (map fst (group_step w now acc item)) \<and>
   distinct (bucket_keys (group_step w now acc item))"
  by (simp add: group_step_def Let_def keys_set_path)

lemma keys_group_reduce:
  "distinct (map fst acc) \<Longrightarrow> distinct (bucket_keys acc) \<Longrightarrow>
   distinct (map fst (group_reduce w i acc res)) \<and>
   distinct (bucket_keys (group_reduce w i acc res))"
proof (induction res arbitrary: i acc)
  case Nil
  then show ?case by simp
next
  case (Cons item res)
  from keys_group_step [OF Cons.prems, of w "group_clock w i" item]
  have "distinct (map fst (group_step w (group_clock w i) acc item))"
    "distinct (bucket_keys (group_step w (group_clock w i) acc item))"
    by blast+
  from Cons.IH [OF this] show ?case by (simp only: group_reduce.simps)
qed

text \<open>
  Claim C8. For every sequence of results, the totals of the buckets that \<^verbatim>\<open>group\<close>
  builds add up to the length of the sequence; the member lists of the buckets together
  hold exactly the results of the sequence, each occurrence once; the buckets have
  pairwise distinct keys (date label, type); and the total of every bucket is the
  length of its member list.
\<close>

theorem group_partition:
  "totals (group w res) = length res \<and>
   mset (members (group w res)) = mset res \<and>
   distinct (bucket_keys (group w res)) \<and>
   map total (buckets (group w res)) = map (\<lambda>b. length (items b)) (buckets (group w res))"
proof -
  have "totals (group w res) = length res"
    by (simp add: group_def totals_group_reduce) (simp add: totals_def buckets_def)
  moreover have "mset (members (group w res)) = mset res"
    by (simp add: group_def members_group_reduce) (simp add: members_def buckets_def)
  moreover have "distinct (bucket_keys (group w res))"
    unfolding group_def by (rule keys_group_reduce [THEN conjunct2]) (simp_all add: bucket_keys_def)
  moreover have "map total (buckets (group w res)) = map (\<lambda>b. length (items b)) (buckets (group w res))"
    unfolding group_def by (rule counts_group_reduce) (simp add: buckets_def)
  ultimately show ?thesis by blast
qed

subsection \<open>The status classifier\<close>

lemmas page_defs =
  status_page_def blocked_page_def not_found_page_def other_error_page_def form_page_def
  element_def text_node_def

lemmas classifier_defs =
  getErrorType_def get_labelFor_def get_errorRaw_def extract_data_def
  getDate_def getDate_try_def getType_def lodash_has_def infoParser_def titleToType_def

lemma getDate_None: "getDate w now None = \<lparr>date_date = Moment now, date_string = moment_format w (Moment now)\<rparr>"
  by (simp add: getDate_def getDate_try_def Let_def)

lemma getDate_Some:
  "getDate w now (Some text) =
     \<lparr>date_date = moment_parse w (drop 3 (join '', '' (take 2 (split_on CHR '','' text)))),
      date_string = moment_format w (moment_parse w (drop 3 (join '', '' (take 2 (split_on CHR '','' text)))))\<rparr>"
  by (simp add: getDate_def getDate_try_def Let_def)

lemma getErrorType_blocked:
  "get_labelFor (d ''label'') = Some ''accessviolation'' \<Longrightarrow> getErrorType d = Inr (''BLOCKED'', [])"
  by (simp add: getErrorType_def Let_def)

lemma getErrorType_missing_heading:
  "get_labelFor (d ''label'') = Some ''receipt_number'' \<Longrightarrow>
   get_errorRaw (d ''#formErrorMessages h4'') = None \<Longrightarrow>
   getErrorType d = Inl TypeError"
  by (simp add: getErrorType_def Let_def)

text \<open>
  Claim C4 at a failure page the code does not classify. The page has a label for
  \<^verbatim>\<open>receipt_number\<close> and no heading under \<^verbatim>\<open>#formErrorMessages\<close> (the form without an
  error message). The claim puts it in the unknown category, with a diagnostic;
  \<^verbatim>\<open>getErrorType\<close> calls \<^verbatim>\<open>.split\<close> on \<^verbatim>\<open>undefined\<close> and throws.
\<close>

theorem getErrorType_raises:
  "getErrorType form_page = Inl TypeError"
  by (simp add: getErrorType_def get_labelFor_def get_errorRaw_def page_defs)

text \<open>
  Claim C6 at a body text whose date does not parse. The \<^verbatim>\<open>catch\<close> block of
  \<^verbatim>\<open>getDate\<close>, which substitutes the current time, runs only when \<^verbatim>\<open>data.split\<close> throws,
  that is when there is no text at all (\<open>getDate_Some\<close>, \<open>getDate_None\<close>). For a text
  the parser cannot read, the record carries the invalid moment and the label
  \<^verbatim>\<open>Invalid date\<close>, not the current time.
\<close>

theorem getDate_unparsed:
  "getDate example_world 1472400000 (Some ''Your case is being processed.'') =
     \<lparr>date_date = InvalidMoment, date_string = ''Invalid date''\<rparr> \<and>
   date_date (getDate example_world 1472400000 (Some ''Your case is being processed.''))
     \<noteq> Moment 1472400000"
  by (simp add: getDate_Some example_world_def)

lemma lodash_has_plain:
  "CHR ''.'' \<notin> set key \<Longrightarrow> CHR ''['' \<notin> set key \<Longrightarrow>
   lodash_has w object key = (map_of object key \<noteq> None)"
  by (simp add: lodash_has_def map_of_eq_None_iff)

lemma lodash_has_key: "map_of object key = Some v \<Longrightarrow> lodash_has w object key"
  by (auto simp: lodash_has_def dest: map_of_SomeD intro: rev_image_eqI)

lemma getType_key: "map_of titleToType key = Some t \<Longrightarrow> getType w key = (Some t, [])"
  by (simp add: getType_def lodash_has_key)

lemma getType_plain:
  "CHR ''.'' \<notin> set key \<Longrightarrow> CHR ''['' \<notin> set key \<Longrightarrow>
   getType w key =
     (case map_of titleToType key of
        Some t \<Rightarrow> (Some t, [])
      | None \<Rightarrow> (Some ''UNKNOWN'', [UnknownKey key]))"
  by (simp add: getType_def lodash_has_plain split: option.splits)

lemma getType_approved: "getType w ''Case Was Approved'' = (Some ''APPROVED'', [])"
  by (rule getType_key) (simp add: titleToType_def)

lemma getType_new:
  "getType w ''Something New'' = (Some ''UNKNOWN'', [UnknownKey ''Something New''])"
  by (simp add: getType_plain) (simp add: titleToType_def)

lemma infoParser_eq:
  "infoParser w now text title =
     (\<lparr>caseNum = None, type = fst (getType w title),
       date = Some (getDate w now (Some text)),
       data = Some \<lparr>data_raw = Some text, data_heading = Some title\<rparr>\<rparr>,
      snd (getType w title))"
  by (simp add: infoParser_def split: prod.splits)

lemma extractInfo_success:
  assumes "htmlparser w body = Document d"
    and "extract_data d ''div.rows h1'' = Some title" "title \<noteq> []"
    and "extract_data d ''div.rows p'' = Some text" "text \<noteq> []"
  shows "extractInfo w now body =
           Inr (Inr (fst (infoParser w now text title)), snd (infoParser w now text title))"
  using assms by (simp add: extractInfo_def Let_def split: prod.splits)

lemma extractInfo_failure:
  assumes "htmlparser w body = Document d"
    and "falsy (extract_data d ''div.rows h1'') \<or> falsy (extract_data d ''div.rows p'')"
  shows "extractInfo w now body =
           (case getErrorType d of
              Inl e \<Rightarrow> Inl e
            | Inr (t, printed) \<Rightarrow> Inr (Inl (ExtractionFailure t), printed))"
  using assms by (simp add: extractInfo_def Let_def)

subsection \<open>The case poller\<close>

lemma retrieveCaseStatus_RequestError:
  "request_post w num = RequestError \<Longrightarrow>
   retrieveCaseStatus w num s =
     Inr ((None, defaultReturn w num), say [RetrievalFailed num] (s\<lparr>posted := posted s @ [num]\<rparr>))"
  by (simp add: retrieveCaseStatus_def Let_def)

lemma retrieveCaseStatus_raise:
  "request_post w num = Response body \<Longrightarrow> extractInfo w (clock w num) body = Inl e \<Longrightarrow>
   retrieveCaseStatus w num s = Inl e"
  by (simp add: retrieveCaseStatus_def Let_def)

lemma retrieveCaseStatus_BLOCKED:
  "request_post w num = Response body \<Longrightarrow>
   extractInfo w (clock w num) body = Inr (Inl (ExtractionFailure ''BLOCKED''), printed) \<Longrightarrow>
   retrieveCaseStatus w num s =
     Inr ((None, defaultReturn w num),
          (say printed (s\<lparr>posted := posted s @ [num]\<rparr>))\<lparr>BLOCKED := True\<rparr>)"
  by (simp add: retrieveCaseStatus_def Let_def)

lemma retrieveCaseStatus_NOT_FOUND:
  "request_post w num = Response body \<Longrightarrow>
   extractInfo w (clock w num) body = Inr (Inl (ExtractionFailure ''NOT_FOUND''), printed) \<Longrightarrow>
   retrieveCaseStatus w num s =
     Inr ((None, \<lparr>caseNum = None, type = Some ''NEXIST'', date = None, data = None\<rparr>),
          say (printed @ [DoesNotExist num]) (s\<lparr>posted := posted s @ [num]\<rparr>))"
  by (simp add: retrieveCaseStatus_def Let_def empty_object_def)

lemma retrieveCaseStatus_other_failure:
  "request_post w num = Response body \<Longrightarrow>
   extractInfo w (clock w num) body = Inr (Inl err, printed) \<Longrightarrow>
   err \<noteq> ExtractionFailure ''BLOCKED'' \<Longrightarrow> err \<noteq> ExtractionFailure ''NOT_FOUND'' \<Longrightarrow>
   retrieveCaseStatus w num s =
     Inr ((None, defaultReturn w num), say printed (s\<lparr>posted := posted s @ [num]\<rparr>))"
  by (simp add: retrieveCaseStatus_def Let_def)

lemma merge_result:
  "lodash_extend
     (lodash_extend
        (lodash_extend empty_object [''caseNum'', ''type'', ''date'', ''data'']
           (defaultReturn w num))
        [''data'', ''type'', ''date''] res)
     [''caseNum''] (empty_object\<lparr>caseNum := Some num\<rparr>) =
   \<lparr>caseNum = Some num, type = type res, date = date res, data = data res\<rparr>"
  by (simp add: lodash_extend_def empty_object_def)

lemma retrieveCaseStatus_success:
  "request_post w num = Response body \<Longrightarrow>
   extractInfo w (clock w num) body = Inr (Inr res, printed) \<Longrightarrow>
   retrieveCaseStatus w num s =
     Inr ((None, \<lparr>caseNum = Some num, type = type res, date = date res, data = data res\<rparr>),
          say printed (s\<lparr>posted := posted s @ [num]\<rparr>))"
  by (simp add: retrieveCaseStatus_def Let_def merge_result)

text \<open>Whenever the lookup calls back, it does so without an error, it has sent one
  request, and it never clears the blocked flag.\<close>

lemma retrieveCaseStatus_effect:
  assumes "retrieveCaseStatus w num s = Inr ((err, r), s')"
  shows "err = None \<and> posted s' = posted s @ [num] \<and> results s' = results s \<and>
         (BLOCKED s \<longrightarrow> BLOCKED s')"
  using assms
  by (auto simp: retrieveCaseStatus_def Let_def say_def
           split: http_reply.splits sum.splits prod.splits if_splits)

lemma retrieveCaseStatus_returns_iff:
  "(\<exists>r s'. retrieveCaseStatus w num s = Inr ((None, r), s')) \<longleftrightarrow>
   (request_post w num = RequestError \<or>
    (\<exists>body out. request_post w num = Response body \<and> extractInfo w (clock w num) body = Inr out))"
  by (auto simp: retrieveCaseStatus_def Let_def
           split: http_reply.splits sum.splits prod.splits if_splits)

lemmas lookup_eval =
  retrieveCaseStatus_def extractInfo_def defaultReturn_def Let_def say_def
  example_world_def page_defs classifier_defs lodash_extend_def empty_object_def
  initial_state_def numeral_string_def decimal.simps digit_def

text \<open>
  Claim C5 at a heading that is not in the table and that lodash reads as a property
  path. \<^verbatim>\<open>Case Was Approved.length\<close> is no key of \<^verbatim>\<open>titleToType\<close>, so the claim gives it the
  type \<^verbatim>\<open>UNKNOWN\<close> and a diagnostic. \<^verbatim>\<open>_.has(titleToType, key)\<close> follows the path to the
  \<^verbatim>\<open>length\<close> of the string \<^verbatim>\<open>"APPROVED"\<close> and answers \<^verbatim>\<open>true\<close>; \<^verbatim>\<open>getType\<close> then returns
  \<^verbatim>\<open>titleToType[key]\<close>, which is \<^verbatim>\<open>undefined\<close>. The record of the lookup has no type and
  nothing is printed.
\<close>

theorem infoParser_path_heading:
  "map_of titleToType ''Case Was Approved.length'' = None \<and>
   lodash_has example_world titleToType ''Case Was Approved.length'' \<and>
   getType example_world ''Case Was Approved.length'' = (None, []) \<and>
   retrieveCaseStatus example_world ''IOE0900677920'' initial_state =
     Inr ((None,
           \<lparr>caseNum = Some ''IOE0900677920'', type = None,
            date = Some \<lparr>date_date = Moment 1472014800, date_string = ''day 17037''\<rparr>,
            data = Some \<lparr>data_raw = Some ''On August 24, 2016, we approved your Form I-765.'',
                         data_heading = Some ''Case Was Approved.length''\<rparr>\<rparr>),
          \<lparr>BLOCKED = False, results = [], console = [], posted = [''IOE0900677920'']\<rparr>)"
proof -
  have m: "map_of titleToType ''Case Was Approved.length'' = None"
    by (simp add: titleToType_def)
  have h: "lodash_has example_world titleToType ''Case Was Approved.length''"
    by (simp add: lodash_has_def example_world_def example_has_path_def titleToType_def)
  from m h have g: "getType example_world ''Case Was Approved.length'' = (None, [])"
    by (simp add: getType_def)
  have e: "extractInfo example_world 1472400000 ''dotted'' =
      Inr (Inr \<lparr>caseNum = None, type = None,
            date = Some \<lparr>date_date = Moment 1472014800, date_string = ''day 17037''\<rparr>,
            data = Some \<lparr>data_raw = Some ''On August 24, 2016, we approved your Form I-765.'',
                         data_heading = Some ''Case Was Approved.length''\<rparr>\<rparr>, [])"
  proof -
    have "infoParser example_world 1472400000
        ''On August 24, 2016, we approved your Form I-765.'' ''Case Was Approved.length'' =
      (\<lparr>caseNum = None, type = None,
        date = Some \<lparr>date_date = Moment 1472014800, date_string = ''day 17037''\<rparr>,
        data = Some \<lparr>data_raw = Some ''On August 24, 2016, we approved your Form I-765.'',
                     data_heading = Some ''Case Was Approved.length''\<rparr>\<rparr>, [])"
      by (simp add: infoParser_def g getDate_Some)
         (simp add: example_world_def numeral_string_def decimal.simps digit_def)
    moreover have "htmlparser example_world ''dotted'' =
        Document (status_page ''Case Was Approved.length''
          ''On August 24, 2016, we approved your Form I-765.'')"
      by (simp add: example_world_def)
    ultimately show ?thesis
      by (simp add: extractInfo_def Let_def extract_data_def page_defs)
  qed
  have "retrieveCaseStatus example_world ''IOE0900677920'' initial_state =
     Inr ((None,
           \<lparr>caseNum = Some ''IOE0900677920'', type = None,
            date = Some \<lparr>date_date = Moment 1472014800, date_string = ''day 17037''\<rparr>,
            data = Some \<lparr>data_raw = Some ''On August 24, 2016, we approved your Form I-765.'',
                         data_heading = Some ''Case Was Approved.length''\<rparr>\<rparr>),
          say [] (initial_state\<lparr>posted := posted initial_state @ [''IOE0900677920'']\<rparr>))"
  proof (rule retrieveCaseStatus_success [where body = "''dotted''" and printed = "[]" and
        res = "\<lparr>caseNum = None, type = None,
            date = Some \<lparr>date_date = Moment 1472014800, date_string = ''day 17037''\<rparr>,
            data = Some \<lparr>data_raw = Some ''On August 24, 2016, we approved your Form I-765.'',
                         data_heading = Some ''Case Was Approved.length''\<rparr>\<rparr>", simplified])
    show "request_post example_world ''IOE0900677920'' = Response ''dotted''"
      by (simp add: example_world_def)
    have "clock example_world ''IOE0900677920'' = 1472400000" by (simp add: example_world_def)
    with e show "extractInfo example_world (clock example_world ''IOE0900677920'') ''dotted'' =
      Inr (Inr \<lparr>caseNum = None, type = None,
            date = Some \<lparr>date_date = Moment 1472014800, date_string = ''day 17037''\<rparr>,
            data = Some \<lparr>data_raw = Some ''On August 24, 2016, we approved your Form I-765.'',
                         data_heading = Some ''Case Was Approved.length''\<rparr>\<rparr>, [])"
      by simp
  qed
  with m h g show ?thesis by (simp add: say_def initial_state_def)
qed

text \<open>
  The classification of the other headings (beyond claim C5). A heading that is a key of
  the table gets the type the table holds for it and nothing is printed. A heading
  without \<^verbatim>\<open>.\<close> and \<^verbatim>\<open>[\<close> that is no key of the table gets the type \<^verbatim>\<open>UNKNOWN\<close> and the
  heading is printed. \<^verbatim>\<open>Case Was Approved\<close> is classified \<^verbatim>\<open>APPROVED\<close>, \<^verbatim>\<open>Something New\<close> is
  classified \<^verbatim>\<open>UNKNOWN\<close>. A lookup that extracts such a heading and a body text calls back
  with a record of that type and the case number: no exception escapes and the blocked
  flag is untouched.
\<close>

theorem infoParser_plain_heading:
  "(map_of titleToType heading = Some t \<longrightarrow>
      type (fst (infoParser w now text heading)) = Some t \<and>
      snd (infoParser w now text heading) = []) \<and>
   (map_of titleToType heading = None \<and> CHR ''.'' \<notin> set heading \<and> CHR ''['' \<notin> set heading \<longrightarrow>
      type (fst (infoParser w now text heading)) = Some ''UNKNOWN'' \<and>
      snd (infoParser w now text heading) = [UnknownKey heading]) \<and>
   infoParser w now text ''Case Was Approved'' =
     (\<lparr>caseNum = None, type = Some ''APPROVED'',
       date = Some (getDate w now (Some text)),
       data = Some \<lparr>data_raw = Some text, data_heading = Some ''Case Was Approved''\<rparr>\<rparr>, []) \<and>
   infoParser w now text ''Something New'' =
     (\<lparr>caseNum = None, type = Some ''UNKNOWN'',
       date = Some (getDate w now (Some text)),
       data = Some \<lparr>data_raw = Some text, data_heading = Some ''Something New''\<rparr>\<rparr>,
      [UnknownKey ''Something New'']) \<and>
   (request_post w num = Response body \<and> htmlparser w body = Document d \<and>
    extract_data d ''div.rows h1'' = Some heading \<and> heading \<noteq> [] \<and>
    extract_data d ''div.rows p'' = Some text \<and> text \<noteq> [] \<and>
    CHR ''.'' \<notin> set heading \<and> CHR ''['' \<notin> set heading \<longrightarrow>
      (\<exists>r. retrieveCaseStatus w num s =
             Inr ((None, r),
                  say (case map_of titleToType heading of
                         Some t \<Rightarrow> []
                       | None \<Rightarrow> [UnknownKey heading])
                    (s\<lparr>posted := posted s @ [num]\<rparr>)) \<and>
           caseNum r = Some num \<and>
           type r = Some (case map_of titleToType heading of
                            Some t \<Rightarrow> t
                          | None \<Rightarrow> ''UNKNOWN'')))"
proof (intro conjI impI)
  assume "map_of titleToType heading = Some t"
  then show "type (fst (infoParser w now text heading)) = Some t"
    "snd (infoParser w now text heading) = []"
    by (simp_all add: infoParser_eq getType_key)
next
  assume "map_of titleToType heading = None \<and> CHR ''.'' \<notin> set heading \<and> CHR ''['' \<notin> set heading"
  then show "type (fst (infoParser w now text heading)) = Some ''UNKNOWN''"
    "snd (infoParser w now text heading) = [UnknownKey heading]"
    by (simp_all add: infoParser_eq getType_plain)
next
  show "infoParser w now text ''Case Was Approved'' =
     (\<lparr>caseNum = None, type = Some ''APPROVED'',
       date = Some (getDate w now (Some text)),
       data = Some \<lparr>data_raw = Some text, data_heading = Some ''Case Was Approved''\<rparr>\<rparr>, [])"
    by (simp add: infoParser_eq getType_approved)
  show "infoParser w now text ''Something New'' =
     (\<lparr>caseNum = None, type = Some ''UNKNOWN'',
       date = Some (getDate w now (Some text)),
       data = Some \<lparr>data_raw = Some text, data_heading = Some ''Something New''\<rparr>\<rparr>,
      [UnknownKey ''Something New''])"
    by (simp add: infoParser_eq getType_new)
next
  assume a: "request_post w num = Response body \<and> htmlparser w body = Document d \<and>
    extract_data d ''div.rows h1'' = Some heading \<and> heading \<noteq> [] \<and>
    extract_data d ''div.rows p'' = Some text \<and> text \<noteq> [] \<and>
    CHR ''.'' \<notin> set heading \<and> CHR ''['' \<notin> set heading"
  then have "extractInfo w (clock w num) body =
      Inr (Inr (fst (infoParser w (clock w num) text heading)),
           snd (infoParser w (clock w num) text heading))"
    by (intro extractInfo_success) auto
  with a have "retrieveCaseStatus w num s =
     Inr ((None,
           \<lparr>caseNum = Some num, type = type (fst (infoParser w (clock w num) text heading)),
            date = date (fst (infoParser w (clock w num) text heading)),
            data = data (fst (infoParser w (clock w num) text heading))\<rparr>),
          say (snd (infoParser w (clock w num) text heading)) (s\<lparr>posted := posted s @ [num]\<rparr>))"
    by (intro retrieveCaseStatus_success) auto
  with a show "\<exists>r. retrieveCaseStatus w num s =
             Inr ((None, r),
                  say (case map_of titleToType heading of
                         Some t \<Rightarrow> []
                       | None \<Rightarrow> [UnknownKey heading])
                    (s\<lparr>posted := posted s @ [num]\<rparr>)) \<and>
           caseNum r = Some num \<and>
           type r = Some (case map_of titleToType heading of
                            Some t \<Rightarrow> t
                          | None \<Rightarrow> ''UNKNOWN'')"
    by (simp add: infoParser_eq getType_plain split: option.splits)
qed

text \<open>The theorem at the lookup of a case whose page is headed \<^verbatim>\<open>Something New\<close>.\<close>

theorem infoParser_plain_heading_witness:
  "\<exists>r. retrieveCaseStatus example_world ''IOE0900677927'' initial_state =
          Inr ((None, r),
               \<lparr>BLOCKED = False, results = [], console = [UnknownKey ''Something New''],
                posted = [''IOE0900677927'']\<rparr>) \<and>
        caseNum r = Some ''IOE0900677927'' \<and> type r = Some ''UNKNOWN''"
proof -
  have h: "request_post example_world ''IOE0900677927'' = Response ''new'' \<and>
     htmlparser example_world ''new'' =
       Document (status_page ''Something New'' ''Your case is being processed.'') \<and>
     extract_data (status_page ''Something New'' ''Your case is being processed.'') ''div.rows h1''
       = Some ''Something New'' \<and> ''Something New'' \<noteq> [] \<and>
     extract_data (status_page ''Something New'' ''Your case is being processed.'') ''div.rows p''
       = Some ''Your case is being processed.'' \<and> ''Your case is being processed.'' \<noteq> [] \<and>
     CHR ''.'' \<notin> set ''Something New'' \<and> CHR ''['' \<notin> set ''Something New''"
    by (simp add: example_world_def page_defs extract_data_def)
  have m: "map_of titleToType ''Something New'' = None"
    by (simp add: titleToType_def)
  from infoParser_plain_heading [of "''Something New''" undefined example_world 0
      "''Your case is being processed.''" "''IOE0900677927''" "''new''"
      "status_page ''Something New'' ''Your case is being processed.''" initial_state] h
  have "\<exists>r. retrieveCaseStatus example_world ''IOE0900677927'' initial_state =
             Inr ((None, r),
                  say (case map_of titleToType ''Something New'' of
                         Some t \<Rightarrow> []
                       | None \<Rightarrow> [UnknownKey ''Something New''])
                    (initial_state\<lparr>posted := posted initial_state @ [''IOE0900677927'']\<rparr>)) \<and>
           caseNum r = Some ''IOE0900677927'' \<and>
           type r = Some (case map_of titleToType ''Something New'' of
                            Some t \<Rightarrow> t
                          | None \<Rightarrow> ''UNKNOWN'')"
    by blast
  then show ?thesis by (simp add: m say_def initial_state_def)
qed

text \<open>
  Claim C10. When the extraction fails and the page is classified \<^verbatim>\<open>NOT_FOUND\<close>, the
  record handed to the callback has the type \<^verbatim>\<open>NEXIST\<close> and nothing else: no case number,
  no date and no data. It is this record that enters the results of the batch.
\<close>

theorem retrieveCaseStatus_not_found_record:
  assumes "request_post w num = Response body" and "htmlparser w body = Document d"
    and "falsy (extract_data d ''div.rows h1'') \<or> falsy (extract_data d ''div.rows p'')"
    and "getErrorType d = Inr (''NOT_FOUND'', printed)"
  shows "retrieveCaseStatus w num s =
           Inr ((None, \<lparr>caseNum = None, type = Some ''NEXIST'', date = None, data = None\<rparr>),
                say (printed @ [DoesNotExist num]) (s\<lparr>posted := posted s @ [num]\<rparr>)) \<and>
         async_map w [num] s =
           Inr ((None, [\<lparr>caseNum = None, type = Some ''NEXIST'', date = None, data = None\<rparr>]),
                say (printed @ [DoesNotExist num]) (s\<lparr>posted := posted s @ [num]\<rparr>))"
proof -
  have "extractInfo w (clock w num) body = Inr (Inl (ExtractionFailure ''NOT_FOUND''), printed)"
    using assms by (simp add: extractInfo_failure)
  from retrieveCaseStatus_NOT_FOUND [OF assms(1) this]
  show ?thesis by simp
qed

text \<open>The theorem at the lookup of a case number that does not exist.\<close>

theorem retrieveCaseStatus_not_found_record_witness:
  "retrieveCaseStatus example_world ''IOE0900677925'' initial_state =
     Inr ((None, \<lparr>caseNum = None, type = Some ''NEXIST'', date = None, data = None\<rparr>),
          \<lparr>BLOCKED = False, results = [], console = [DoesNotExist ''IOE0900677925''],
           posted = [''IOE0900677925'']\<rparr>) \<and>
   async_map example_world [''IOE0900677925''] initial_state =
     Inr ((None, [\<lparr>caseNum = None, type = Some ''NEXIST'', date = None, data = None\<rparr>]),
          \<lparr>BLOCKED = False, results = [], console = [DoesNotExist ''IOE0900677925''],
           posted = [''IOE0900677925'']\<rparr>)"
proof -
  have 1: "request_post example_world ''IOE0900677925'' = Response ''notfound''"
    and 2: "htmlparser example_world ''notfound'' = Document not_found_page"
    by (simp_all add: example_world_def)
  have 3: "falsy (extract_data not_found_page ''div.rows h1'') \<or>
           falsy (extract_data not_found_page ''div.rows p'')"
    by (simp add: extract_data_def page_defs)
  have 4: "getErrorType not_found_page = Inr (''NOT_FOUND'', [])"
    by (simp add: getErrorType_def get_labelFor_def get_errorRaw_def page_defs)
  from retrieveCaseStatus_not_found_record [OF 1 2 3 4, of initial_state]
  show ?thesis by (simp add: say_def initial_state_def)
qed

text \<open>
  Claim C1 at a lookup that raises. The request succeeds, the extraction of heading and
  text fails, and the page is the form without an error message: the \<^verbatim>\<open>TypeError\<close> of
  \<^verbatim>\<open>getErrorType\<close> escapes through \<^verbatim>\<open>extractInfo\<close> and the callback of the request, and
  \<^verbatim>\<open>callback\<close> is never called.
\<close>

theorem retrieveCaseStatus_raises:
  "request_post example_world ''IOE0900677926'' = Response ''form'' \<and>
   htmlparser example_world ''form'' = Document form_page \<and>
   retrieveCaseStatus example_world ''IOE0900677926'' initial_state = Inl TypeError"
  by (simp add: lookup_eval)

text \<open>
  The other outcomes (beyond claim C1). The lookup calls back once, without an error. When the request
  fails, the record has the type \<^verbatim>\<open>FAILED\<close>, the time at which the callback runs, and
  empty data. When the request succeeds and \<^verbatim>\<open>extractInfo\<close> calls back (with a parser
  error, a classified failure, or a result), the lookup calls back with a record.
\<close>

theorem retrieveCaseStatus_returns:
  "(request_post w num = RequestError \<longrightarrow>
      retrieveCaseStatus w num s =
        Inr ((None,
              \<lparr>caseNum = Some num, type = Some ''FAILED'',
               date = Some \<lparr>date_date = Moment (clock w num),
                            date_string = moment_format w (Moment (clock w num))\<rparr>,
               data = Some \<lparr>data_raw = None, data_heading = None\<rparr>\<rparr>),
             say [RetrievalFailed num] (s\<lparr>posted := posted s @ [num]\<rparr>))) \<and>
   (request_post w num = Response body \<and> extractInfo w (clock w num) body = Inr out \<longrightarrow>
      (\<exists>r s'. retrieveCaseStatus w num s = Inr ((None, r), s')))"
proof (intro conjI impI)
  assume "request_post w num = RequestError"
  then show "retrieveCaseStatus w num s =
        Inr ((None,
              \<lparr>caseNum = Some num, type = Some ''FAILED'',
               date = Some \<lparr>date_date = Moment (clock w num),
                            date_string = moment_format w (Moment (clock w num))\<rparr>,
               data = Some \<lparr>data_raw = None, data_heading = None\<rparr>\<rparr>),
             say [RetrievalFailed num] (s\<lparr>posted := posted s @ [num]\<rparr>))"
    by (simp add: retrieveCaseStatus_RequestError defaultReturn_def getDate_None)
next
  assume "request_post w num = Response body \<and> extractInfo w (clock w num) body = Inr out"
  then show "\<exists>r s'. retrieveCaseStatus w num s = Inr ((None, r), s')"
    using retrieveCaseStatus_returns_iff [of w num s] by blast
qed

text \<open>The theorem at a request that fails and at a request that is blocked.\<close>

theorem retrieveCaseStatus_returns_witness:
  "retrieveCaseStatus example_world ''IOE0900677930'' initial_state =
     Inr ((None,
           \<lparr>caseNum = Some ''IOE0900677930'', type = Some ''FAILED'',
            date = Some \<lparr>date_date = Moment 1472400000, date_string = ''day 17041''\<rparr>,
            data = Some \<lparr>data_raw = None, data_heading = None\<rparr>\<rparr>),
          \<lparr>BLOCKED = False, results = [], console = [RetrievalFailed ''IOE0900677930''],
           posted = [''IOE0900677930'']\<rparr>) \<and>
   (\<exists>r s'. retrieveCaseStatus example_world ''IOE0900677924'' initial_state = Inr ((None, r), s'))"
proof -
  have 1: "request_post example_world ''IOE0900677930'' = RequestError"
    by (simp add: example_world_def)
  have 2: "request_post example_world ''IOE0900677924'' = Response ''blocked'' \<and>
      extractInfo example_world (clock example_world ''IOE0900677924'') ''blocked'' =
        Inr (Inl (ExtractionFailure ''BLOCKED''), [])"
    by (simp add: lookup_eval)
  from retrieveCaseStatus_returns [of example_world "''IOE0900677930''" initial_state] 1
  have a: "retrieveCaseStatus example_world ''IOE0900677930'' initial_state =
        Inr ((None,
              \<lparr>caseNum = Some ''IOE0900677930'', type = Some ''FAILED'',
               date = Some \<lparr>date_date = Moment (clock example_world ''IOE0900677930''),
                            date_string = moment_format example_world
                              (Moment (clock example_world ''IOE0900677930''))\<rparr>,
               data = Some \<lparr>data_raw = None, data_heading = None\<rparr>\<rparr>),
             say [RetrievalFailed ''IOE0900677930'']
               (initial_state\<lparr>posted := posted initial_state @ [''IOE0900677930'']\<rparr>))"
    by blast
  from retrieveCaseStatus_returns [of example_world "''IOE0900677924''" initial_state "''blocked''"] 2
  have b: "\<exists>r s'. retrieveCaseStatus example_world ''IOE0900677924'' initial_state = Inr ((None, r), s')"
    by blast
  from a have "retrieveCaseStatus example_world ''IOE0900677930'' initial_state =
     Inr ((None,
           \<lparr>caseNum = Some ''IOE0900677930'', type = Some ''FAILED'',
            date = Some \<lparr>date_date = Moment 1472400000, date_string = ''day 17041''\<rparr>,
            data = Some \<lparr>data_raw = None, data_heading = None\<rparr>\<rparr>),
          \<lparr>BLOCKED = False, results = [], console = [RetrievalFailed ''IOE0900677930''],
           posted = [''IOE0900677930'']\<rparr>)"
    by (simp add: example_world_def say_def initial_state_def numeral_string_def decimal.simps digit_def)
  with b show ?thesis by blast
qed

subsection \<open>The batch scheduler\<close>

lemma async_map_effect:
  "async_map w ps s = Inr ((err, rs), s') \<Longrightarrow>
     err = None \<and> length rs = length ps \<and> posted s' = posted s @ ps \<and>
     results s' = results s \<and> (BLOCKED s \<longrightarrow> BLOCKED s')"
proof (induction ps arbitrary: s err rs s')
  case Nil
  then show ?case by simp
next
  case (Cons p ps)
  from Cons.prems obtain e1 r s1 where 1: "retrieveCaseStatus w p s = Inr ((e1, r), s1)"
    by (auto split: sum.splits prod.splits)
  with Cons.prems obtain e2 rs2 where 2: "async_map w ps s1 = Inr ((e2, rs2), s')"
    and out: "err = (case e1 of Some e \<Rightarrow> Some e | None \<Rightarrow> e2)" "rs = r # rs2"
    by (auto split: sum.splits prod.splits)
  from retrieveCaseStatus_effect [OF 1] Cons.IH [OF 2] out show ?case by simp
qed

text \<open>A lookup that meets the page of a blocked client sets the flag.\<close>

lemma retrieveCaseStatus_access_violation:
  assumes "request_post w num = Response body" "htmlparser w body = Document d"
    and "falsy (extract_data d ''div.rows h1'') \<or> falsy (extract_data d ''div.rows p'')"
    and "get_labelFor (d ''label'') = Some ''accessviolation''"
  shows "retrieveCaseStatus w num s =
           Inr ((None, defaultReturn w num), s\<lparr>posted := posted s @ [num], BLOCKED := True\<rparr>)"
proof -
  have "extractInfo w (clock w num) body = Inr (Inl (ExtractionFailure ''BLOCKED''), [])"
    using assms by (simp add: extractInfo_failure getErrorType_blocked)
  from retrieveCaseStatus_BLOCKED [OF assms(1) this] show ?thesis by (simp add: say_def)
qed

lemma async_map_access_violation:
  assumes "num \<in> set ps"
    and "request_post w num = Response body" "htmlparser w body = Document d"
    and "falsy (extract_data d ''div.rows h1'') \<or> falsy (extract_data d ''div.rows p'')"
    and "get_labelFor (d ''label'') = Some ''accessviolation''"
    and "async_map w ps s = Inr (out, s')"
  shows "BLOCKED s'"
  using assms(1,6)
proof (induction ps arbitrary: s out s')
  case Nil
  then show ?case by simp
next
  case (Cons p ps)
  from Cons.prems(2) obtain e1 r s1 where 1: "retrieveCaseStatus w p s = Inr ((e1, r), s1)"
    by (auto split: sum.splits prod.splits)
  with Cons.prems(2) obtain e2 rs2 where 2: "async_map w ps s1 = Inr ((e2, rs2), s')"
    by (auto split: sum.splits prod.splits)
  show ?case
  proof (cases "p = num")
    case True
    with 1 retrieveCaseStatus_access_violation [OF assms(2-5), of s] have "BLOCKED s1" by auto
    with async_map_effect [OF 2] show ?thesis by blast
  next
    case False
    with Cons.prems(1) have "num \<in> set ps" by simp
    from Cons.IH [OF this 2] show ?thesis .
  qed
qed

lemma recursiveHelper_done:
  "endNum dat \<le> current \<or> BLOCKED s \<Longrightarrow>
   recursiveHelper w dat current acc s =
     Some (Inr (acc, if BLOCKED s then say [IPBlocked] (s\<lparr>results := acc\<rparr>)
                     else s\<lparr>results := acc\<rparr>))"
  by (subst recursiveHelper.simps) (auto simp: Let_def)

lemma recursiveHelper_step:
  assumes "current < endNum dat" "\<not> BLOCKED s"
    and "async_map w (getParams (prefix dat) current (intervalSize dat))
           (say [Processing current] (s\<lparr>results := acc\<rparr>)) = Inr ((None, res), s1)"
  shows "recursiveHelper w dat current acc s =
           recursiveHelper w dat (js_add current (intervalSize dat)) (acc @ res)
             (say [Finished (js_add current (intervalSize dat))] s1)"
  using assms by (subst recursiveHelper.simps) (simp add: Let_def)

lemma recursiveHelper_raise:
  assumes "current < endNum dat" "\<not> BLOCKED s"
    and "async_map w (getParams (prefix dat) current (intervalSize dat))
           (say [Processing current] (s\<lparr>results := acc\<rparr>)) = Inl e"
  shows "recursiveHelper w dat current acc s = Some (Inl e)"
  using assms by (subst recursiveHelper.simps) (simp add: Let_def)

text \<open>
  Termination (beyond the claims). With a batch width \<open>\<ge> 1\<close>, and the cursor and the
  end within the integers that doubles hold exactly, the scheduler always reaches its
  callback, or an exception escapes: it does not recurse forever.
\<close>

theorem recursiveHelper_terminates:
  assumes "1 \<le> intervalSize dat" and "- 9007199254740992 \<le> current"
    and "endNum dat + intervalSize dat \<le> 9007199254740992"
  shows "\<exists>y. recursiveHelper w dat current acc s = Some y"
  using assms(2)
proof (induction "nat (endNum dat - current)" arbitrary: current acc s rule: less_induct)
  case less
  show ?case
  proof (cases "endNum dat \<le> current \<or> BLOCKED s")
    case True
    then show ?thesis by (simp add: recursiveHelper_done)
  next
    case False
    then have c: "current < endNum dat" "\<not> BLOCKED s" by auto
    with assms(1,3) less.prems have j: "js_add current (intervalSize dat) = current + intervalSize dat"
      by (intro js_add_exact) simp
    show ?thesis
    proof (cases "async_map w (getParams (prefix dat) current (intervalSize dat))
           (say [Processing current] (s\<lparr>results := acc\<rparr>))")
      case (Inl e)
      from recursiveHelper_raise [OF c Inl] show ?thesis by simp
    next
      case (Inr x)
      then obtain err res s1 where x: "x = ((err, res), s1)" by (cases x) auto
      with Inr async_map_effect have "err = None" by blast
      with Inr x recursiveHelper_step [OF c, of w acc res s1]
      have "recursiveHelper w dat current acc s =
           recursiveHelper w dat (current + intervalSize dat) (acc @ res)
             (say [Finished (current + intervalSize dat)] s1)" by (simp add: j)
      moreover have "nat (endNum dat - (current + intervalSize dat)) < nat (endNum dat - current)"
        using assms(1) c by linarith
      moreover have "- 9007199254740992 \<le> current + intervalSize dat"
        using assms(1) less.prems by linarith
      ultimately show ?thesis using less.hyps by metis
    qed
  qed
qed

text \<open>The theorem at batches of two over six cases.\<close>

theorem recursiveHelper_terminates_witness:
  "\<exists>y. recursiveHelper example_world \<lparr>prefix = ''IOE'', intervalSize = 2, endNum = 900677929\<rparr>
     900677923 [] initial_state = Some y"
  by (rule recursiveHelper_terminates) simp_all

lemma getParams_nonpositive: "number \<le> 0 \<Longrightarrow> getParams p start number = []"
  by (simp add: getParams_def lodash_times_def)

lemma double_round_negative: "x < 0 \<Longrightarrow> double_round x \<le> 0"
  by (simp add: double_round_def Let_def mult_le_0_iff)

lemma js_add_nonpositive:
  assumes "i \<le> 0" "current \<le> 9007199254740992"
  shows "js_add current i \<le> 9007199254740992 \<and> (js_add current i \<le> current \<or> js_add current i \<le> 0)"
proof (cases "\<bar>current + i\<bar> \<le> 9007199254740992")
  case True
  then have "js_add current i = current + i" by (rule js_add_exact)
  with assms show ?thesis by simp
next
  case False
  with assms have "current + i < 0" by linarith
  then have "js_add current i \<le> 0" unfolding js_add_def by (rule double_round_negative)
  then show ?thesis by simp
qed

lemma recursiveHelper_never_returns:
  assumes "recursiveHelper w dat current acc s = Some y"
  shows "\<not> (intervalSize dat \<le> 0 \<and> current < endNum dat \<and> 0 < endNum dat \<and>
            current \<le> 9007199254740992 \<and> \<not> BLOCKED s)"
  apply (rule recursiveHelper.raw_induct
    [where P = "\<lambda>w dat current acc s y.
       \<not> (intervalSize dat \<le> 0 \<and> current < endNum dat \<and> 0 < endNum dat \<and>
          current \<le> 9007199254740992 \<and> \<not> BLOCKED s)", OF _ assms])
  subgoal premises prems for rec w dat current acc s y
  proof
    assume c: "intervalSize dat \<le> 0 \<and> current < endNum dat \<and> 0 < endNum dat \<and>
            current \<le> 9007199254740992 \<and> \<not> BLOCKED s"
    then have "rec w dat (js_add current (intervalSize dat)) acc
        (say [Finished (js_add current (intervalSize dat))]
           (say [Processing current] (s\<lparr>results := acc\<rparr>)))
        = Some y"
      using prems(2) by (simp add: getParams_nonpositive Let_def)
    from prems(1) [OF this] c js_add_nonpositive [of "intervalSize dat" current]
    show False by (auto simp: say_def)
  qed
  done

text \<open>
  Divergence (beyond the claims). With a batch width \<open>\<le> 0\<close>, a case left to query
  before a positive end, and the flag clear, every batch is empty and the cursor does not
  advance: the scheduler never reaches its callback.
\<close>

theorem recursiveHelper_loops:
  "intervalSize dat \<le> 0 \<Longrightarrow> current < endNum dat \<Longrightarrow> 0 < endNum dat \<Longrightarrow>
   current \<le> 9007199254740992 \<Longrightarrow> \<not> BLOCKED s \<Longrightarrow>
   recursiveHelper w dat current acc s = None"
  using recursiveHelper_never_returns [of w dat current acc s]
  by (cases "recursiveHelper w dat current acc s") auto

text \<open>The theorem at a batch width of zero and one case to query.\<close>

theorem recursiveHelper_loops_witness:
  "recursiveHelper example_world \<lparr>prefix = ''IOE'', intervalSize = 0, endNum = 900677924\<rparr>
     900677923 [] initial_state = None"
  by (rule recursiveHelper_loops) (simp_all add: initial_state_def)

lemma members_group: "mset (members (group w res)) = mset res"
  by (simp add: group_def members_group_reduce) (simp add: members_def buckets_def)

text \<open>
  A batch that resolves with the page of a blocked client in it (beyond claim C2).
  Suppose a batch is started (the cursor is before the end and the flag is clear), every
  lookup of the batch calls back, and one of them meets a page on which the extraction
  fails and whose label is for \<^verbatim>\<open>accessviolation\<close>. Then the flag is set when the batch
  has resolved; the scheduler hands the results of the earlier batches followed by those
  of this batch to its callback, having sent the requests of this batch and no other; in
  the state it leaves, every further call of the scheduler returns at once without a
  request; and the final processing groups all of these results.
\<close>

theorem blocked_run_stops:
  assumes "current < endNum dat" and "\<not> BLOCKED s"
    and "async_map w (getParams (prefix dat) current (intervalSize dat))
           (say [Processing current] (s\<lparr>results := acc\<rparr>)) = Inr ((err, res), s1)"
    and "num \<in> set (getParams (prefix dat) current (intervalSize dat))"
    and "request_post w num = Response body" and "htmlparser w body = Document d"
    and "falsy (extract_data d ''div.rows h1'') \<or> falsy (extract_data d ''div.rows p'')"
    and "get_labelFor (d ''label'') = Some ''accessviolation''"
  shows "BLOCKED s1 \<and>
         recursiveHelper w dat current acc s =
           Some (Inr (acc @ res,
             say [IPBlocked]
               ((say [Finished (js_add current (intervalSize dat))] s1)\<lparr>results := acc @ res\<rparr>))) \<and>
         posted s1 = posted s @ getParams (prefix dat) current (intervalSize dat) \<and>
         length res = length (getParams (prefix dat) current (intervalSize dat)) \<and>
         (\<forall>dat' current' acc' s'. BLOCKED s' \<longrightarrow>
            recursiveHelper w dat' current' acc' s' =
              Some (Inr (acc', say [IPBlocked] (s'\<lparr>results := acc'\<rparr>)))) \<and>
         processFinalResults w (acc @ res) = writeStats w (group w (acc @ res)) \<and>
         mset (members (group w (acc @ res))) = mset acc + mset res"
proof -
  from async_map_access_violation [OF assms(4-8) assms(3)] have b: "BLOCKED s1" .
  from async_map_effect [OF assms(3)] have e: "err = None"
    "length res = length (getParams (prefix dat) current (intervalSize dat))"
    "posted s1 = posted (say [Processing current] (s\<lparr>results := acc\<rparr>)) @
       getParams (prefix dat) current (intervalSize dat)"
    by blast+
  from assms(3) e(1) recursiveHelper_step [OF assms(1,2), of w acc res s1]
  have "recursiveHelper w dat current acc s =
          recursiveHelper w dat (js_add current (intervalSize dat)) (acc @ res)
            (say [Finished (js_add current (intervalSize dat))] s1)"
    by simp
  also from b have "\<dots> = Some (Inr (acc @ res,
             say [IPBlocked]
               ((say [Finished (js_add current (intervalSize dat))] s1)\<lparr>results := acc @ res\<rparr>)))"
    by (subst recursiveHelper_done) (simp_all add: say_def)
  finally have r: "recursiveHelper w dat current acc s =
           Some (Inr (acc @ res,
             say [IPBlocked]
               ((say [Finished (js_add current (intervalSize dat))] s1)\<lparr>results := acc @ res\<rparr>)))" .
  have never: "\<forall>dat' current' acc' s'. BLOCKED s' \<longrightarrow>
            recursiveHelper w dat' current' acc' s' =
              Some (Inr (acc', say [IPBlocked] (s'\<lparr>results := acc'\<rparr>)))"
    by (simp add: recursiveHelper_done)
  from e(3) have p: "posted s1 = posted s @ getParams (prefix dat) current (intervalSize dat)"
    by (simp add: say_def)
  from assms(4) e(2) have "res \<noteq> []" by auto
  then have f: "processFinalResults w (acc @ res) = writeStats w (group w (acc @ res))"
    by (simp add: processFinalResults_def)
  from b r p e(2) never f show ?thesis
    by (simp add: members_group)
qed

text \<open>The theorem at a batch of two whose second case meets the page of a blocked
  client, after an earlier batch of one result: the run ends after this batch although
  four more cases were to follow, and the earlier result is kept.\<close>

theorem blocked_run_stops_witness:
  "\<exists>res s'. recursiveHelper example_world \<lparr>prefix = ''IOE'', intervalSize = 2, endNum = 900677929\<rparr>
       900677923 [defaultReturn example_world ''IOE0900677922''] initial_state =
         Some (Inr (res, s')) \<and>
     BLOCKED s' \<and> posted s' = [''IOE0900677923'', ''IOE0900677924''] \<and> length res = 3 \<and>
     take 1 res = [defaultReturn example_world ''IOE0900677922'']"
proof -
  define dat where "dat = \<lparr>prefix = ''IOE'', intervalSize = 2, endNum = 900677929\<rparr>"
  define acc where "acc = [defaultReturn example_world ''IOE0900677922'']"
  have ps: "getParams (prefix dat) 900677923 (intervalSize dat) =
      [''IOE0900677923'', ''IOE0900677924'']"
    by (simp add: dat_def getParams_eval)
  have "\<exists>x. async_map example_world (getParams (prefix dat) 900677923 (intervalSize dat))
     (say [Processing 900677923] (initial_state\<lparr>results := acc\<rparr>)) = Inr x"
    unfolding ps by (simp add: lookup_eval)
  then obtain err res s1 where batch:
    "async_map example_world (getParams (prefix dat) 900677923 (intervalSize dat))
       (say [Processing 900677923] (initial_state\<lparr>results := acc\<rparr>)) = Inr ((err, res), s1)"
    by (metis surj_pair)
  have 1: "900677923 < endNum dat" by (simp add: dat_def)
  have 2: "\<not> BLOCKED initial_state" by (simp add: initial_state_def)
  have 4: "''IOE0900677924'' \<in> set (getParams (prefix dat) 900677923 (intervalSize dat))"
    unfolding ps by simp
  have 5: "request_post example_world ''IOE0900677924'' = Response ''blocked''"
    and 6: "htmlparser example_world ''blocked'' = Document blocked_page"
    by (simp_all add: example_world_def)
  have 7: "falsy (extract_data blocked_page ''div.rows h1'') \<or>
           falsy (extract_data blocked_page ''div.rows p'')"
    by (simp add: extract_data_def page_defs)
  have 8: "get_labelFor (blocked_page ''label'') = Some ''accessviolation''"
    by (simp add: get_labelFor_def page_defs)
  from blocked_run_stops [OF 1 2 batch 4 5 6 7 8]
  have r: "BLOCKED s1"
    "recursiveHelper example_world dat 900677923 acc initial_state =
           Some (Inr (acc @ res,
             say [IPBlocked]
               ((say [Finished (js_add 900677923 (intervalSize dat))] s1)\<lparr>results := acc @ res\<rparr>)))"
    "posted s1 = posted initial_state @ getParams (prefix dat) 900677923 (intervalSize dat)"
    "length res = length (getParams (prefix dat) 900677923 (intervalSize dat))"
    by blast+
  from r show ?thesis
    unfolding ps dat_def [symmetric] acc_def [symmetric]
    by (simp add: say_def initial_state_def) (simp add: acc_def)
qed

text \<open>
  Claim C2 at a batch in which one lookup meets the page of a blocked client and a later
  one the form without an error message. The run is for six cases in batches of three.
  The first batch resolves with three results and the flag clear. In the second batch
  the lookup of \<^verbatim>\<open>IOE0900677924\<close> observes the access violation and sets the flag, and the
  lookup of \<^verbatim>\<open>IOE0900677926\<close> raises the \<^verbatim>\<open>TypeError\<close> of \<^verbatim>\<open>getErrorType\<close>. The exception
  escapes: the callback of \<^verbatim>\<open>async.map\<close> never runs, the scheduler never reaches its
  callback, and the three results of the first batch are not aggregated.
\<close>

theorem blocked_batch_raises:
  "getParams ''IOE'' 900677921 3 =
     [''IOE0900677921'', ''IOE0900677922'', ''IOE0900677923''] \<and>
   getParams ''IOE'' 900677924 3 =
     [''IOE0900677924'', ''IOE0900677925'', ''IOE0900677926''] \<and>
   (\<exists>res s1. async_map example_world [''IOE0900677921'', ''IOE0900677922'', ''IOE0900677923'']
        (say [Processing 900677921] ((say [Starting] initial_state)\<lparr>results := []\<rparr>)) =
          Inr ((None, res), s1) \<and>
      length res = 3 \<and> \<not> BLOCKED s1) \<and>
   (\<exists>r s'. retrieveCaseStatus example_world ''IOE0900677924'' initial_state =
        Inr ((None, r), s') \<and> BLOCKED s') \<and>
   retrieveCaseStatus example_world ''IOE0900677926'' initial_state = Inl TypeError \<and>
   run example_world
     \<lparr>opt_total = 6, opt_prefix = ''IOE'', opt_start = 900677921, opt_limit = 3\<rparr>
     initial_state = Some (Inl TypeError)"
proof -
  define dat where "dat = \<lparr>prefix = ''IOE'', intervalSize = 3, endNum = 900677927\<rparr>"
  define s0 where "s0 = say [Processing 900677921] ((say [Starting] initial_state)\<lparr>results := []\<rparr>)"
  have p1: "getParams ''IOE'' 900677921 3 =
     [''IOE0900677921'', ''IOE0900677922'', ''IOE0900677923'']"
    by (simp add: getParams_eval)
  have p2: "getParams ''IOE'' 900677924 3 =
     [''IOE0900677924'', ''IOE0900677925'', ''IOE0900677926'']"
    by (simp add: getParams_eval)
  have "\<exists>res s1. async_map example_world [''IOE0900677921'', ''IOE0900677922'', ''IOE0900677923'']
        s0 = Inr ((None, res), s1) \<and> length res = 3 \<and> \<not> BLOCKED s1"
    by (simp add: s0_def lookup_eval)
  then obtain res s1 where b1:
    "async_map example_world [''IOE0900677921'', ''IOE0900677922'', ''IOE0900677923''] s0 =
       Inr ((None, res), s1)" "length res = 3" "\<not> BLOCKED s1"
    by blast
  have b2: "async_map example_world [''IOE0900677924'', ''IOE0900677925'', ''IOE0900677926''] t =
      Inl TypeError" for t
    by (simp add: lookup_eval split: sum.splits prod.splits)
  have blocked: "\<exists>r s'. retrieveCaseStatus example_world ''IOE0900677924'' initial_state =
        Inr ((None, r), s') \<and> BLOCKED s'"
    by (simp add: lookup_eval)
  have raises: "retrieveCaseStatus example_world ''IOE0900677926'' initial_state = Inl TypeError"
    by (simp add: lookup_eval)
  have j: "js_add 900677921 3 = 900677924" by (simp add: js_add_exact)
  have "recursiveHelper example_world dat 900677921 [] (say [Starting] initial_state) =
      recursiveHelper example_world dat (js_add 900677921 (intervalSize dat)) ([] @ res)
        (say [Finished (js_add 900677921 (intervalSize dat))] s1)"
    by (rule recursiveHelper_step)
       (simp_all add: dat_def say_def initial_state_def p1 b1(1) [unfolded s0_def say_def initial_state_def, simplified])
  also have "\<dots> = Some (Inl TypeError)"
  proof (rule recursiveHelper_raise)
    show "js_add 900677921 (intervalSize dat) < endNum dat" by (simp add: dat_def j)
    show "\<not> BLOCKED (say [Finished (js_add 900677921 (intervalSize dat))] s1)"
      using b1(3) by (simp add: say_def)
    have "getParams (prefix dat) (js_add 900677921 (intervalSize dat))
        (intervalSize dat) = [''IOE0900677924'', ''IOE0900677925'', ''IOE0900677926'']"
      by (simp add: dat_def j p2)
    then show "async_map example_world
        (getParams (prefix dat) (js_add 900677921 (intervalSize dat))
           (intervalSize dat))
        (say [Processing (js_add 900677921 (intervalSize dat))]
           ((say [Finished (js_add 900677921 (intervalSize dat))] s1)\<lparr>results := [] @ res\<rparr>)) =
        Inl TypeError"
      by (simp only: b2)
  qed
  finally have "run example_world
     \<lparr>opt_total = 6, opt_prefix = ''IOE'', opt_start = 900677921, opt_limit = 3\<rparr>
     initial_state = Some (Inl TypeError)"
    by (simp add: run_def dat_def parseInt_def js_add_exact)
  with p1 p2 b1 blocked raises show ?thesis unfolding s0_def by blast
qed

text \<open>A batch in which every request fails in transport.\<close>

lemma async_map_all_fail:
  "(\<forall>p \<in> set ps. request_post w p = RequestError) \<Longrightarrow>
   async_map w ps s =
     Inr ((None, map (defaultReturn w) ps),
          s\<lparr>posted := posted s @ ps, console := console s @ map RetrievalFailed ps\<rparr>)"
proof (induction ps arbitrary: s)
  case Nil
  then show ?case by simp
next
  case (Cons p ps)
  then have "request_post w p = RequestError" by simp
  from retrieveCaseStatus_RequestError [OF this] Cons show ?case
    by (simp add: say_def)
qed

text \<open>
  Claim C7 at the default options of the script, one case in batches of ten.
  \<^verbatim>\<open>recursiveHelper\<close> always asks \<^verbatim>\<open>getParams\<close> for \<open>intervalSize\<close> identifiers, whatever
  is left before \<open>end\<close>: the run sends ten requests, for the case asked for and for the nine
  that follow it, and keeps ten results. The claim says the last batch is cut at the
  total.
\<close>

theorem run_overshoots:
  "\<exists>g s'. run example_world
       \<lparr>opt_total = 1, opt_prefix = ''IOE'', opt_start = 900677930, opt_limit = 10\<rparr>
       initial_state = Some (Inr (g, s')) \<and>
     posted s' =
       [''IOE0900677930'', ''IOE0900677931'', ''IOE0900677932'', ''IOE0900677933'',
        ''IOE0900677934'', ''IOE0900677935'', ''IOE0900677936'', ''IOE0900677937'',
        ''IOE0900677938'', ''IOE0900677939''] \<and>
     length (results s') = 10"
proof -
  define dat where "dat = \<lparr>prefix = ''IOE'', intervalSize = 10, endNum = 900677931\<rparr>"
  define ps where "ps = [''IOE0900677930'', ''IOE0900677931'', ''IOE0900677932'', ''IOE0900677933'',
        ''IOE0900677934'', ''IOE0900677935'', ''IOE0900677936'', ''IOE0900677937'',
        ''IOE0900677938'', ''IOE0900677939'']"
  have p: "getParams (prefix dat) 900677930 (intervalSize dat) = ps"
    by (simp add: dat_def ps_def getParams_eval)
  have f: "\<forall>p \<in> set ps. request_post example_world p = RequestError"
    by (simp add: ps_def example_world_def)
  have j: "js_add 900677930 (intervalSize dat) = 900677940"
    by (simp add: dat_def js_add_exact)
  define s0 where "s0 = say [Processing 900677930] ((say [Starting] initial_state)\<lparr>results := []\<rparr>)"
  define s1 where "s1 = s0\<lparr>posted := posted s0 @ ps, console := console s0 @ map RetrievalFailed ps\<rparr>"
  have batch: "async_map example_world (getParams (prefix dat) 900677930 (intervalSize dat))
      (say [Processing 900677930] ((say [Starting] initial_state)\<lparr>results := []\<rparr>)) =
      Inr ((None, map (defaultReturn example_world) ps), s1)"
    unfolding p s1_def s0_def by (rule async_map_all_fail [OF f])
  have "recursiveHelper example_world dat 900677930 [] (say [Starting] initial_state) =
      recursiveHelper example_world dat (js_add 900677930 (intervalSize dat))
        ([] @ map (defaultReturn example_world) ps)
        (say [Finished (js_add 900677930 (intervalSize dat))] s1)"
    by (rule recursiveHelper_step [OF _ _ batch]) (simp_all add: dat_def say_def initial_state_def)
  also have "\<dots> = Some (Inr (map (defaultReturn example_world) ps,
      (say [Finished (js_add 900677930 (intervalSize dat))] s1)
        \<lparr>results := map (defaultReturn example_world) ps\<rparr>))"
    by (subst recursiveHelper_done)
       (simp_all add: j, simp_all add: dat_def say_def s1_def s0_def initial_state_def)
  finally have "run example_world
       \<lparr>opt_total = 1, opt_prefix = ''IOE'', opt_start = 900677930, opt_limit = 10\<rparr>
       initial_state =
     Some (Inr (processFinalResults example_world (map (defaultReturn example_world) ps),
       say [Completed (length (map (defaultReturn example_world) ps))]
        ((say [Finished (js_add 900677930 (intervalSize dat))] s1)
          \<lparr>results := map (defaultReturn example_world) ps\<rparr>)))"
    by (simp add: run_def dat_def parseInt_def js_add_exact)
  then show ?thesis
    by (simp add: say_def s1_def s0_def initial_state_def) (simp add: ps_def)
qed

subsection \<open>The run\<close>

text \<open>When every lookup calls back, so does every batch.\<close>

lemma async_map_calls_back:
  assumes "\<forall>num t. \<exists>out. retrieveCaseStatus w num t = Inr out"
  shows "\<exists>res s'. async_map w ps s = Inr ((None, res), s')"
proof (induction ps arbitrary: s)
  case Nil
  then show ?case by simp
next
  case (Cons p ps)
  from assms obtain out where "retrieveCaseStatus w p s = Inr out" by blast
  then obtain err r s1 where 1: "retrieveCaseStatus w p s = Inr ((err, r), s1)"
    by (cases out) auto
  from retrieveCaseStatus_effect [OF 1] have e: "err = None" by blast
  from Cons.IH [of s1] obtain res s' where "async_map w ps s1 = Inr ((None, res), s')" by blast
  with 1 e show ?case by simp
qed

text \<open>With a batch width \<open>\<ge> 1\<close>, within the integers that doubles hold exactly and with
  lookups that call back, the scheduler reaches its callback: it has sent the requests of
  a first batch, if there was a case to query, and it hands over one result for every
  request sent.\<close>

lemma recursiveHelper_calls_back:
  assumes "1 \<le> intervalSize dat" and "- 9007199254740992 \<le> current"
    and "endNum dat + intervalSize dat \<le> 9007199254740992"
    and "\<forall>num t. \<exists>out. retrieveCaseStatus w num t = Inr out"
  shows "\<exists>res s' more.
           recursiveHelper w dat current acc s = Some (Inr (res, s')) \<and>
           posted s' = posted s @ more \<and> results s' = res \<and>
           length res = length acc + length more \<and>
           (current < endNum dat \<and> \<not> BLOCKED s \<longrightarrow>
              (\<exists>rest. more = getParams (prefix dat) current (intervalSize dat) @ rest))"
  using assms(2)
proof (induction "nat (endNum dat - current)" arbitrary: current acc s rule: less_induct)
  case less
  show ?case
  proof (cases "endNum dat \<le> current \<or> BLOCKED s")
    case True
    then have "recursiveHelper w dat current acc s =
        Some (Inr (acc, if BLOCKED s then say [IPBlocked] (s\<lparr>results := acc\<rparr>)
                        else s\<lparr>results := acc\<rparr>))"
      by (rule recursiveHelper_done)
    with True show ?thesis by (auto simp: say_def)
  next
    case False
    then have c: "current < endNum dat" "\<not> BLOCKED s" by auto
    define ps where "ps = getParams (prefix dat) current (intervalSize dat)"
    define s0 where "s0 = say [Processing current] (s\<lparr>results := acc\<rparr>)"
    from c assms(1,3) less.prems have j: "js_add current (intervalSize dat) = current + intervalSize dat"
      by (intro js_add_exact) simp
    from async_map_calls_back [OF assms(4), of ps s0] obtain res s1 where
      b: "async_map w ps s0 = Inr ((None, res), s1)" by blast
    from async_map_effect [OF b] have e: "length res = length ps" "posted s1 = posted s0 @ ps"
      by blast+
    from b have "recursiveHelper w dat current acc s =
        recursiveHelper w dat (js_add current (intervalSize dat)) (acc @ res)
          (say [Finished (js_add current (intervalSize dat))] s1)"
      unfolding ps_def s0_def by (rule recursiveHelper_step [OF c])
    then have step: "recursiveHelper w dat current acc s =
        recursiveHelper w dat (current + intervalSize dat) (acc @ res)
          (say [Finished (current + intervalSize dat)] s1)"
      by (simp add: j)
    have "nat (endNum dat - (current + intervalSize dat)) < nat (endNum dat - current)"
      using assms(1) c by linarith
    moreover have "- 9007199254740992 \<le> current + intervalSize dat"
      using assms(1) less.prems by linarith
    ultimately obtain res' s' more where r:
      "recursiveHelper w dat (current + intervalSize dat) (acc @ res)
         (say [Finished (current + intervalSize dat)] s1) = Some (Inr (res', s'))"
      "posted s' = posted (say [Finished (current + intervalSize dat)] s1) @ more"
      "results s' = res'" "length res' = length (acc @ res) + length more"
      using less.hyps [of "current + intervalSize dat" "acc @ res"
          "say [Finished (current + intervalSize dat)] s1"]
      by blast
    from r e have "recursiveHelper w dat current acc s = Some (Inr (res', s')) \<and>
           posted s' = posted s @ (ps @ more) \<and> results s' = res' \<and>
           length res' = length acc + length (ps @ more) \<and>
           (\<exists>rest. ps @ more = getParams (prefix dat) current (intervalSize dat) @ rest)"
      by (simp add: step say_def s0_def ps_def)
    then show ?thesis by blast
  qed
qed

text \<open>
  Claim C9, as the code has it. Nothing checks the range and no error is raised for it.
  With a total \<open>\<le> 0\<close> the run sends no request and hands its callback an empty hash.
  With a positive total and a batch width \<open>\<ge> 1\<close>, whatever the start, negative or
  not, the run reaches its callback when its lookups call back, and it has sent the
  requests for the identifiers that \<^verbatim>\<open>getParams\<close> yields from that start, keeping one
  result for every request. (The numbers are taken within the integers that doubles hold
  exactly, up to \<open>2^53\<close> in magnitude.) \<^verbatim>\<open>getParams\<close> is a function of its arguments; it
  yields as many identifiers as \<^verbatim>\<open>_.times\<close> gives results, for every start, and from a
  negative start as from any other the \<open>i\<close>-th is the prefix followed by the padded
  \<open>start + i\<close>.
\<close>

theorem run_unchecked_range:
  "(opt_total opts \<le> 0 \<and> \<bar>opt_start opts\<bar> \<le> 9007199254740992 \<and>
    - 9007199254740992 \<le> opt_start opts + opt_total opts \<longrightarrow>
      (\<exists>s'. run w opts s = Some (Inr ([], s')) \<and> posted s' = posted s \<and> results s' = [])) \<and>
   (0 < opt_total opts \<and> 1 \<le> opt_limit opts \<and> - 9007199254740992 \<le> opt_start opts \<and>
    opt_start opts + opt_total opts + opt_limit opts \<le> 9007199254740992 \<and> \<not> BLOCKED s \<and>
    (\<forall>num t. \<exists>out. retrieveCaseStatus w num t = Inr out) \<longrightarrow>
      (\<exists>h s' rest. run w opts s = Some (Inr (h, s')) \<and>
         posted s' =
           posted s @ getParams (opt_prefix opts) (opt_start opts) (opt_limit opts) @ rest \<and>
         length (results s') =
           length (getParams (opt_prefix opts) (opt_start opts) (opt_limit opts)) +
           length rest)) \<and>
   length (getParams p start number) =
     (if number < 1 \<or> 9007199254740991 < number then 0 else nat (min number 4294967295)) \<and>
   (- 9007199254740992 \<le> start \<and> number \<le> 4294967295 \<and>
    start + number \<le> 9007199254740992 \<longrightarrow>
      getParams p start number =
        map (\<lambda>i. p @ pad (start + int i) caseNumLength) [0..<nat number])"
proof (intro conjI impI)
  assume "- 9007199254740992 \<le> start \<and> number \<le> 4294967295 \<and>
    start + number \<le> 9007199254740992"
  then show "getParams p start number =
        map (\<lambda>i. p @ pad (start + int i) caseNumLength) [0..<nat number]"
    by (intro getParams_exact) simp_all
next
  assume a: "opt_total opts \<le> 0 \<and> \<bar>opt_start opts\<bar> \<le> 9007199254740992 \<and>
    - 9007199254740992 \<le> opt_start opts + opt_total opts"
  then have "\<bar>opt_start opts\<bar> < 1000000000000000000000"
    "\<bar>opt_total opts\<bar> < 1000000000000000000000"
    by linarith+
  then have p: "parseInt (opt_start opts) = opt_start opts"
    "parseInt (opt_total opts) = opt_total opts"
    by (simp_all add: parseInt_def)
  from a have "\<bar>opt_start opts + opt_total opts\<bar> \<le> 9007199254740992" by linarith
  then have j: "js_add (opt_start opts) (opt_total opts) = opt_start opts + opt_total opts"
    by (rule js_add_exact)
  from a have "recursiveHelper w
      \<lparr>prefix = opt_prefix opts, intervalSize = parseInt (opt_limit opts),
       endNum = opt_start opts + opt_total opts\<rparr> (opt_start opts) [] (say [Starting] s) =
     Some (Inr ([], if BLOCKED (say [Starting] s)
                    then say [IPBlocked] ((say [Starting] s)\<lparr>results := []\<rparr>)
                    else (say [Starting] s)\<lparr>results := []\<rparr>))"
    by (intro recursiveHelper_done) simp
  then show "\<exists>s'. run w opts s = Some (Inr ([], s')) \<and> posted s' = posted s \<and> results s' = []"
    by (simp add: run_def Let_def p j processFinalResults_def say_def)
next
  assume a: "0 < opt_total opts \<and> 1 \<le> opt_limit opts \<and> - 9007199254740992 \<le> opt_start opts \<and>
    opt_start opts + opt_total opts + opt_limit opts \<le> 9007199254740992 \<and> \<not> BLOCKED s \<and>
    (\<forall>num t. \<exists>out. retrieveCaseStatus w num t = Inr out)"
  define dat where "dat = \<lparr>prefix = opt_prefix opts, intervalSize = opt_limit opts,
       endNum = opt_start opts + opt_total opts\<rparr>"
  from a have "\<bar>opt_start opts\<bar> < 1000000000000000000000"
    "\<bar>opt_total opts\<bar> < 1000000000000000000000"
    "\<bar>opt_limit opts\<bar> < 1000000000000000000000"
    by linarith+
  then have p: "parseInt (opt_start opts) = opt_start opts"
    "parseInt (opt_total opts) = opt_total opts"
    "parseInt (opt_limit opts) = opt_limit opts"
    by (simp_all add: parseInt_def)
  from a have "\<bar>opt_start opts + opt_total opts\<bar> \<le> 9007199254740992" by linarith
  then have j: "js_add (opt_start opts) (opt_total opts) = opt_start opts + opt_total opts"
    by (rule js_add_exact)
  from a have h: "1 \<le> intervalSize dat" "- 9007199254740992 \<le> opt_start opts"
    "endNum dat + intervalSize dat \<le> 9007199254740992"
    "\<forall>num t. \<exists>out. retrieveCaseStatus w num t = Inr out"
    by (simp_all add: dat_def)
  from a have c: "opt_start opts < endNum dat \<and> \<not> BLOCKED (say [Starting] s)"
    by (simp add: dat_def say_def)
  from recursiveHelper_calls_back [OF h, of "[]" "say [Starting] s"] c
  obtain res s' rest where r:
    "recursiveHelper w dat (opt_start opts) [] (say [Starting] s) = Some (Inr (res, s'))"
    "posted s' = posted (say [Starting] s) @
       getParams (prefix dat) (opt_start opts) (intervalSize dat) @ rest"
    "results s' = res"
    "length res = length (getParams (prefix dat) (opt_start opts) (intervalSize dat) @ rest)"
    by auto
  from r have "run w opts s =
      Some (Inr (processFinalResults w res, say [Completed (length res)] s')) \<and>
    posted (say [Completed (length res)] s') =
      posted s @ getParams (opt_prefix opts) (opt_start opts) (opt_limit opts) @ rest \<and>
    length (results (say [Completed (length res)] s')) =
      length (getParams (opt_prefix opts) (opt_start opts) (opt_limit opts)) + length rest"
    by (simp add: run_def Let_def p j dat_def say_def)
  then show "\<exists>h s' rest. run w opts s = Some (Inr (h, s')) \<and>
         posted s' =
           posted s @ getParams (opt_prefix opts) (opt_start opts) (opt_limit opts) @ rest \<and>
         length (results s') =
           length (getParams (opt_prefix opts) (opt_start opts) (opt_limit opts)) +
           length rest"
    by blast
next
  show "length (getParams p start number) =
     (if number < 1 \<or> 9007199254740991 < number then 0 else nat (min number 4294967295))"
    by (rule length_getParams)
qed

text \<open>The theorem at a total of zero, and at the start \<open>-1\<close> with two cases in one batch
  while there is no network.\<close>

theorem run_unchecked_range_witness:
  "(\<exists>s'. run example_world
       \<lparr>opt_total = 0, opt_prefix = ''IOE'', opt_start = 900677923, opt_limit = 10\<rparr>
       initial_state = Some (Inr ([], s')) \<and>
     posted s' = [] \<and> results s' = []) \<and>
   (\<exists>h s'. run offline_world
       \<lparr>opt_total = 2, opt_prefix = ''IOE'', opt_start = - 1, opt_limit = 2\<rparr>
       initial_state = Some (Inr (h, s')) \<and>
     take 2 (posted s') = [''IOE00000000-1'', ''IOE0000000000''] \<and>
     length (results s') = length (posted s'))"
proof -
  define o1 where "o1 = \<lparr>opt_total = 0, opt_prefix = ''IOE'', opt_start = 900677923, opt_limit = 10\<rparr>"
  define o2 where "o2 = \<lparr>opt_total = 2, opt_prefix = ''IOE'', opt_start = - 1, opt_limit = 2\<rparr>"
  have h1: "opt_total o1 \<le> 0 \<and> \<bar>opt_start o1\<bar> \<le> 9007199254740992 \<and>
    - 9007199254740992 \<le> opt_start o1 + opt_total o1"
    by (simp add: o1_def)
  have "\<exists>out. retrieveCaseStatus offline_world num t = Inr out" for num t
    by (simp add: retrieveCaseStatus_RequestError offline_world_def)
  then have h2: "0 < opt_total o2 \<and> 1 \<le> opt_limit o2 \<and> - 9007199254740992 \<le> opt_start o2 \<and>
    opt_start o2 + opt_total o2 + opt_limit o2 \<le> 9007199254740992 \<and> \<not> BLOCKED initial_state \<and>
    (\<forall>num t. \<exists>out. retrieveCaseStatus offline_world num t = Inr out)"
    by (simp add: o2_def initial_state_def)
  have h3: "- 9007199254740992 \<le> (- 1::int) \<and> (2::int) \<le> 4294967295 \<and>
    (- 1::int) + 2 \<le> 9007199254740992"
    by simp
  from run_unchecked_range [of _ _ _ "''IOE''" "- 1" 2] h3
  have "getParams ''IOE'' (- 1) 2 =
      map (\<lambda>i. ''IOE'' @ pad (- 1 + int i) caseNumLength) [0..<nat 2]"
    by blast
  then have g: "getParams ''IOE'' (- 1) 2 = [''IOE00000000-1'', ''IOE0000000000'']"
    by (simp add: pad_def toString_def numeral_string_def pad_while.simps decimal.simps
          digit_def caseNumLength_def upt_rec)
  from run_unchecked_range [of o1 example_world initial_state] h1
  have a: "\<exists>s'. run example_world o1 initial_state = Some (Inr ([], s')) \<and>
      posted s' = posted initial_state \<and> results s' = []"
    by blast
  from run_unchecked_range [of o2 offline_world initial_state] h2
  have "\<exists>h s' rest. run offline_world o2 initial_state = Some (Inr (h, s')) \<and>
         posted s' = posted initial_state @
           getParams (opt_prefix o2) (opt_start o2) (opt_limit o2) @ rest \<and>
         length (results s') =
           length (getParams (opt_prefix o2) (opt_start o2) (opt_limit o2)) +
           length rest"
    by blast
  then have b: "\<exists>h s'. run offline_world o2 initial_state = Some (Inr (h, s')) \<and>
     take 2 (posted s') = [''IOE00000000-1'', ''IOE0000000000''] \<and>
     length (results s') = length (posted s')"
    by (auto simp: o2_def g initial_state_def)
  from a b show ?thesis
    unfolding o1_def o2_def by (simp add: initial_state_def)
qed

text \<open>
  Claim C9 as stated fails: with a total of zero the run ends normally, and with the
  start \<open>-1\<close> it sends a request for the identifier \<^verbatim>\<open>IOE00000000-1\<close>.
\<close>

theorem run_no_range_check:
  "run example_world
       \<lparr>opt_total = 0, opt_prefix = ''IOE'', opt_start = 900677923, opt_limit = 10\<rparr>
       initial_state =
     Some (Inr ([], \<lparr>BLOCKED = False, results = [], console = [Starting, Completed 0],
                     posted = []\<rparr>)) \<and>
   getParams ''IOE'' (- 1) 1 = [''IOE00000000-1''] \<and>
   (\<exists>g s'. run example_world
       \<lparr>opt_total = 1, opt_prefix = ''IOE'', opt_start = - 1, opt_limit = 1\<rparr>
       initial_state = Some (Inr (g, s')) \<and> posted s' = [''IOE00000000-1''])"
proof -
  have a: "run example_world
       \<lparr>opt_total = 0, opt_prefix = ''IOE'', opt_start = 900677923, opt_limit = 10\<rparr>
       initial_state =
     Some (Inr ([], \<lparr>BLOCKED = False, results = [], console = [Starting, Completed 0],
                     posted = []\<rparr>))"
    by (simp add: run_def parseInt_def js_add_exact recursiveHelper.simps
          processFinalResults_def say_def initial_state_def)
  have b: "getParams ''IOE'' (- 1) 1 = [''IOE00000000-1'']"
    by (simp add: getParams_eval)
  define dat where "dat = \<lparr>prefix = ''IOE'', intervalSize = 1, endNum = 0\<rparr>"
  define s0 where "s0 = say [Processing (- 1)] ((say [Starting] initial_state)\<lparr>results := []\<rparr>)"
  define s1 where "s1 = s0\<lparr>posted := posted s0 @ [''IOE00000000-1''],
      console := console s0 @ map RetrievalFailed [''IOE00000000-1'']\<rparr>"
  have f: "\<forall>p \<in> set [''IOE00000000-1'']. request_post example_world p = RequestError"
    by (simp add: example_world_def)
  have batch: "async_map example_world (getParams (prefix dat) (- 1) (intervalSize dat))
      (say [Processing (- 1)] ((say [Starting] initial_state)\<lparr>results := []\<rparr>)) =
      Inr ((None, map (defaultReturn example_world) [''IOE00000000-1'']), s1)"
    unfolding s1_def s0_def dat_def run_data.simps b by (rule async_map_all_fail [OF f])
  have j: "js_add (- 1) (intervalSize dat) = 0" by (simp add: dat_def js_add_exact)
  have "recursiveHelper example_world dat (- 1) [] (say [Starting] initial_state) =
      recursiveHelper example_world dat (js_add (- 1) (intervalSize dat))
        ([] @ map (defaultReturn example_world) [''IOE00000000-1''])
        (say [Finished (js_add (- 1) (intervalSize dat))] s1)"
    by (rule recursiveHelper_step [OF _ _ batch]) (simp_all add: dat_def say_def initial_state_def)
  also have "\<dots> = Some (Inr (map (defaultReturn example_world) [''IOE00000000-1''],
      (say [Finished (js_add (- 1) (intervalSize dat))] s1)
        \<lparr>results := map (defaultReturn example_world) [''IOE00000000-1'']\<rparr>))"
    by (subst recursiveHelper_done)
       (simp_all add: j, simp_all add: dat_def say_def s1_def s0_def initial_state_def)
  finally have "run example_world
       \<lparr>opt_total = 1, opt_prefix = ''IOE'', opt_start = - 1, opt_limit = 1\<rparr>
       initial_state =
     Some (Inr (processFinalResults example_world
                  (map (defaultReturn example_world) [''IOE00000000-1'']),
       say [Completed (length (map (defaultReturn example_world) [''IOE00000000-1'']))]
        ((say [Finished (js_add (- 1) (intervalSize dat))] s1)
          \<lparr>results := map (defaultReturn example_world) [''IOE00000000-1'']\<rparr>)))"
    by (simp add: run_def dat_def parseInt_def js_add_exact)
  then have c: "\<exists>g s'. run example_world
       \<lparr>opt_total = 1, opt_prefix = ''IOE'', opt_start = - 1, opt_limit = 1\<rparr>
       initial_state = Some (Inr (g, s')) \<and> posted s' = [''IOE00000000-1'']"
    by (simp add: say_def s1_def s0_def initial_state_def)
  from a b c show ?thesis by blast
qed

end
